theory Spec2Isabelle
  imports Main "HOL-Library.Word"
begin

section \<open>The translation unit as the preprocessor sees it\<close>

text \<open>
  The two files under \<^verbatim>\<open>native/include\<close> are C headers made of preprocessor
  directives only. A header is embedded as the list of its directives, in the order of
  the file, and including it runs the directives over the state of the translation
  unit: the macro environment, the typedef names in scope, the system headers read so
  far and the diagnostics issued so far.

  System headers (\<^verbatim>\<open><string.h>\<close>, \<^verbatim>\<open><io.h>\<close>, ...) are not part of the
  repository. Reading one is recorded in \<open>included\<close>; what it declares is left opaque.
\<close>

type_synonym ident = string

datatype val = VInt int | VPtr nat | VStr string

datatype expr =
    Lit val
  | Var ident
  | Paren expr
  | Call ident "expr list"

datatype macro =
    ObjectLike "expr option"
  | FunctionLike "ident list" expr

datatype ctype = CInt | CLong | CULong | CLongLong

datatype directive =
    Ifndef ident "directive list"
  | Ifdef ident "directive list" "directive list"
  | Define ident macro
  | Typedef ctype ident
  | Include string
  | IncludeNext string

datatype diagnostic = Macro_redefined ident | Typedef_conflict ident

record tu =
  macros :: "ident \<rightharpoonup> macro"
  typedefs :: "ident \<rightharpoonup> ctype"
  included :: "string list"
  diags :: "diagnostic list"

text \<open>
  \<^verbatim>\<open>#define\<close> of a name that is not a macro binds it. Defining a name again with the
  same replacement is allowed and changes nothing; with a different replacement the
  compiler reports the redefinition and the new replacement takes over.
\<close>

definition define_macro :: "ident \<Rightarrow> macro \<Rightarrow> tu \<Rightarrow> tu" where
  "define_macro n m s =
     (case macros s n of
        None \<Rightarrow> s\<lparr>macros := (macros s)(n \<mapsto> m)\<rparr>
      | Some m' \<Rightarrow>
          if m' = m then s
          else s\<lparr>macros := (macros s)(n \<mapsto> m), diags := diags s @ [Macro_redefined n]\<rparr>)"

text \<open>
  A typedef of a fresh name declares it; repeating a typedef with the same type is
  accepted; a typedef that gives a declared name another type is an error and the first
  declaration stays.
\<close>

definition typedef_decl :: "ctype \<Rightarrow> ident \<Rightarrow> tu \<Rightarrow> tu" where
  "typedef_decl t n s =
     (case typedefs s n of
        None \<Rightarrow> s\<lparr>typedefs := (typedefs s)(n \<mapsto> t)\<rparr>
      | Some t' \<Rightarrow>
          if t' = t then s
          else s\<lparr>diags := diags s @ [Typedef_conflict n]\<rparr>)"

text \<open>
  The shim directory holds \<^verbatim>\<open>strings.h\<close> and \<^verbatim>\<open>unistd.h\<close> only, so every
  \<^verbatim>\<open>#include\<close> written in the two headers names a file of the system, and
  \<^verbatim>\<open>#include_next <unistd.h>\<close> reaches the system's \<^verbatim>\<open>unistd.h\<close>, the next one on
  the search path.

  \<open>sys_include\<close> is the system whose headers declare nothing: reading one is only
  recorded. That is enough to say what the shim's own directives do to the names the
  shim defines, and \<open>exec\<close> is built on it. What a real system header adds (macros,
  types) is not in it; \<open>exec_in\<close> below takes the system's headers as a parameter
  for the statements that compare an inclusion with the system's own header.
\<close>

definition sys_include :: "string \<Rightarrow> tu \<Rightarrow> tu" where
  "sys_include h s = s\<lparr>included := included s @ [h]\<rparr>"

fun exec :: "directive \<Rightarrow> tu \<Rightarrow> tu"
  and execs :: "directive list \<Rightarrow> tu \<Rightarrow> tu" where
  "exec (Ifndef n body) s = (if macros s n = None then execs body s else s)"
| "exec (Ifdef n body alt) s = (if macros s n \<noteq> None then execs body s else execs alt s)"
| "exec (Define n m) s = define_macro n m s"
| "exec (Typedef t n) s = typedef_decl t n s"
| "exec (Include h) s = sys_include h s"
| "exec (IncludeNext h) s = sys_include h s"
| "execs [] s = s"
| "execs (d # ds) s = execs ds (exec d s)"

text \<open>
  The same interpreter over any system: \<open>sys h\<close> is what reading the system's header
  \<open>h\<close> does to a translation unit, whatever that header declares.
\<close>

fun exec_in :: "(string \<Rightarrow> tu \<Rightarrow> tu) \<Rightarrow> directive \<Rightarrow> tu \<Rightarrow> tu"
  and execs_in :: "(string \<Rightarrow> tu \<Rightarrow> tu) \<Rightarrow> directive list \<Rightarrow> tu \<Rightarrow> tu" where
  "exec_in sys (Ifndef n body) s = (if macros s n = None then execs_in sys body s else s)"
| "exec_in sys (Ifdef n body alt) s =
     (if macros s n \<noteq> None then execs_in sys body s else execs_in sys alt s)"
| "exec_in sys (Define n m) s = define_macro n m s"
| "exec_in sys (Typedef t n) s = typedef_decl t n s"
| "exec_in sys (Include h) s = sys h s"
| "exec_in sys (IncludeNext h) s = sys h s"
| "execs_in sys [] s = s"
| "execs_in sys (d # ds) s = execs_in sys ds (exec_in sys d s)"

section \<open>The two headers\<close>

text \<open>
  \<^verbatim>\<open>strings.h\<close>: \<open>strings_msc\<close> is the branch of \<^verbatim>\<open>#ifdef _MSC_VER\<close> (lines 8 to
  17), \<open>strings_h\<close> the whole file (lines 2 to 20). The \<^verbatim>\<open>#ifdef\<close> has no
  \<^verbatim>\<open>#else\<close>.
\<close>

definition strings_msc :: "directive list" where
  "strings_msc =
     [Include ''ctype.h'',
      Ifndef ''strcasecmp''
        [Define ''strcasecmp'' (ObjectLike (Some (Var ''_stricmp'')))],
      Ifndef ''strncasecmp''
        [Define ''strncasecmp'' (ObjectLike (Some (Var ''_strnicmp'')))],
      Ifndef ''bzero''
        [Define ''bzero''
           (FunctionLike [''ptr'', ''size'']
              (Call ''memset'' [Paren (Var ''ptr''), Lit (VInt 0), Paren (Var ''size'')]))]]"

definition strings_h :: "directive list" where
  "strings_h =
     [Ifndef ''KREUZBERG_RUBY_STRINGS_H''
        [Define ''KREUZBERG_RUBY_STRINGS_H'' (ObjectLike None),
         Include ''string.h'',
         Ifdef ''_MSC_VER'' strings_msc []]]"

text \<open>
  \<^verbatim>\<open>unistd.h\<close>: \<open>unistd_msc\<close> is the branch of \<^verbatim>\<open>#ifdef _MSC_VER\<close> (lines 6 to
  37), \<open>unistd_h\<close> the whole file (lines 2 to 43).
\<close>

definition unistd_msc :: "directive list" where
  "unistd_msc =
     [Include ''direct.h'',
      Include ''io.h'',
      Include ''process.h'',
      Include ''stdlib.h'',
      Ifndef ''ssize_t'' [Typedef CLong ''ssize_t''],
      Ifndef ''F_OK'' [Define ''F_OK'' (ObjectLike (Some (Lit (VInt 0))))],
      Ifndef ''X_OK'' [Define ''X_OK'' (ObjectLike (Some (Lit (VInt 0))))],
      Ifndef ''W_OK'' [Define ''W_OK'' (ObjectLike (Some (Lit (VInt 2))))],
      Ifndef ''R_OK'' [Define ''R_OK'' (ObjectLike (Some (Lit (VInt 4))))],
      Define ''access'' (ObjectLike (Some (Var ''_access''))),
      Define ''dup2'' (ObjectLike (Some (Var ''_dup2''))),
      Define ''fileno'' (ObjectLike (Some (Var ''_fileno''))),
      Define ''getpid'' (ObjectLike (Some (Var ''_getpid''))),
      Define ''isatty'' (ObjectLike (Some (Var ''_isatty''))),
      Define ''lseek'' (ObjectLike (Some (Var ''_lseek''))),
      Define ''read'' (ObjectLike (Some (Var ''_read''))),
      Define ''write'' (ObjectLike (Some (Var ''_write''))),
      Define ''close'' (ObjectLike (Some (Var ''_close''))),
      Define ''unlink'' (ObjectLike (Some (Var ''_unlink'')))]"

definition unistd_h :: "directive list" where
  "unistd_h =
     [Ifndef ''KREUZBERG_RUBY_UNISTD_H''
        [Define ''KREUZBERG_RUBY_UNISTD_H'' (ObjectLike None),
         Ifdef ''_MSC_VER'' unistd_msc [IncludeNext ''unistd.h'']]]"

text \<open>
  The build targets the Microsoft runtime when the compiler predefines
  \<^verbatim>\<open>_MSC_VER\<close>; both headers test exactly that.
\<close>

definition msc :: "tu \<Rightarrow> bool" where
  "msc s = (macros s ''_MSC_VER'' \<noteq> None)"

definition posix_tu :: tu where
  "posix_tu = \<lparr>macros = Map.empty, typedefs = Map.empty, included = [], diags = []\<rparr>"

definition msc_tu :: tu where
  "msc_tu = posix_tu\<lparr>macros := [''_MSC_VER'' \<mapsto> ObjectLike (Some (Lit (VInt 1939)))]\<rparr>"


text \<open>
  A name is usable as a declared name once it is a macro or a typedef name.
\<close>

definition is_defined :: "tu \<Rightarrow> ident \<Rightarrow> bool" where
  "is_defined s n = (macros s n \<noteq> None \<or> typedefs s n \<noteq> None)"

text \<open>
  What an \<^verbatim>\<open>#ifndef n\<close> around \<^verbatim>\<open>#define n m\<close> is for: from the state before to
  the state after, a definition of \<open>n\<close> that was there stays as it was, and \<open>m\<close> is
  bound to \<open>n\<close> when there was none.
\<close>

definition keeps_or_introduces :: "tu \<Rightarrow> tu \<Rightarrow> ident \<Rightarrow> macro \<Rightarrow> bool" where
  "keeps_or_introduces s s' n m =
     (case macros s n of
        Some d \<Rightarrow> macros s' n = Some d
      | None \<Rightarrow> macros s' n = Some m)"

section \<open>Using the names: macro replacement and calls\<close>

text \<open>
  An identifier that is an object-like macro is replaced by the macro's replacement; a
  function-like macro followed by arguments is replaced by its body with the (already
  replaced) arguments in place of the parameters. After a replacement the preprocessor
  scans the result again. That second scan is not modelled: \<open>expand\<close> answers only
  when no name left by a replacement is itself a macro (\<open>settled\<close>), so that the
  result it gives is final, and otherwise reports \<open>Unsupported\<close>.
\<close>

fun idents :: "expr \<Rightarrow> ident list" where
  "idents (Lit v) = []"
| "idents (Var n) = [n]"
| "idents (Paren e) = idents e"
| "idents (Call f as) = f # concat (map idents as)"

definition settled :: "tu \<Rightarrow> ident list \<Rightarrow> expr \<Rightarrow> bool" where
  "settled s ps e = list_all (\<lambda>n. n \<in> set ps \<or> macros s n = None) (idents e)"

fun subst :: "(ident \<times> expr) list \<Rightarrow> expr \<Rightarrow> expr" where
  "subst \<sigma> (Lit v) = Lit v"
| "subst \<sigma> (Var n) = (case map_of \<sigma> n of Some a \<Rightarrow> a | None \<Rightarrow> Var n)"
| "subst \<sigma> (Paren e) = Paren (subst \<sigma> e)"
| "subst \<sigma> (Call f as) = Call f (map (subst \<sigma>) as)"

datatype expand_error = Arity_mismatch ident | Unsupported ident

fun invoke :: "tu \<Rightarrow> ident \<Rightarrow> expr list \<Rightarrow> macro option \<Rightarrow> expand_error + expr" where
  "invoke s f as None = Inr (Call f as)"
| "invoke s f as (Some (ObjectLike (Some (Var g)))) =
     (if macros s g = None then Inr (Call g as) else Inl (Unsupported f))"
| "invoke s f as (Some (ObjectLike _)) = Inl (Unsupported f)"
| "invoke s f as (Some (FunctionLike ps b)) =
     (if length ps \<noteq> length as then Inl (Arity_mismatch f)
      else if settled s ps b then Inr (subst (zip ps as) b)
      else Inl (Unsupported f))"

fun expand :: "tu \<Rightarrow> expr \<Rightarrow> expand_error + expr"
  and expands :: "tu \<Rightarrow> expr list \<Rightarrow> expand_error + expr list" where
  "expand s (Lit v) = Inr (Lit v)"
| "expand s (Var n) =
     (case macros s n of
        None \<Rightarrow> Inr (Var n)
      | Some (FunctionLike ps b) \<Rightarrow> Inr (Var n)
      | Some (ObjectLike None) \<Rightarrow> Inl (Unsupported n)
      | Some (ObjectLike (Some b)) \<Rightarrow>
          if settled s [] b then Inr b else Inl (Unsupported n))"
| "expand s (Paren e) =
     (case expand s e of Inl x \<Rightarrow> Inl x | Inr e' \<Rightarrow> Inr (Paren e'))"
| "expand s (Call f as) =
     (case expands s as of Inl x \<Rightarrow> Inl x | Inr as' \<Rightarrow> invoke s f as' (macros s f))"
| "expands s [] = Inr []"
| "expands s (a # as) =
     (case expand s a of
        Inl x \<Rightarrow> Inl x
      | Inr a' \<Rightarrow> (case expands s as of Inl x \<Rightarrow> Inl x | Inr as' \<Rightarrow> Inr (a' # as')))"

text \<open>
  The C runtime is a parameter: a function from the name called, the argument values
  and the state of the world (files, descriptors, \<^verbatim>\<open>errno\<close>) to the value returned
  and the new world. \<open>None\<close> stands for a call the model gives no meaning to.
\<close>

type_synonym 'w runtime = "ident \<Rightarrow> val list \<Rightarrow> 'w \<Rightarrow> (val \<times> 'w) option"

fun eval_arg :: "expr \<Rightarrow> val option" where
  "eval_arg (Lit v) = Some v"
| "eval_arg (Paren e) = eval_arg e"
| "eval_arg _ = None"

fun eval_args :: "expr list \<Rightarrow> val list option" where
  "eval_args [] = Some []"
| "eval_args (a # as) =
     (case eval_arg a of
        None \<Rightarrow> None
      | Some v \<Rightarrow> (case eval_args as of None \<Rightarrow> None | Some vs \<Rightarrow> Some (v # vs)))"

fun run_call :: "'w runtime \<Rightarrow> expr \<Rightarrow> 'w \<Rightarrow> (val \<times> 'w) option" where
  "run_call rt (Call f as) w =
     (case eval_args as of None \<Rightarrow> None | Some vs \<Rightarrow> rt f vs w)"
| "run_call rt _ w = None"

text \<open>A call written in a translation unit: preprocessed first, then executed.\<close>

definition shim_call :: "'w runtime \<Rightarrow> tu \<Rightarrow> expr \<Rightarrow> 'w \<Rightarrow> (val \<times> 'w) option" where
  "shim_call rt s e w = (case expand s e of Inl _ \<Rightarrow> None | Inr e' \<Rightarrow> run_call rt e' w)"

text \<open>
  \<^verbatim>\<open>memset(p, c, n)\<close> of the C library, which \<^verbatim>\<open>bzero\<close> is defined by: it stores the
  byte \<open>c\<close> at the \<open>n\<close> addresses from \<open>p\<close> on and returns \<open>p\<close>.
\<close>

type_synonym memory = "nat \<Rightarrow> 8 word"

fun c_memset :: "val list \<Rightarrow> memory \<Rightarrow> (val \<times> memory) option" where
  "c_memset [VPtr p, VInt c, VInt n] m =
     (if 0 \<le> n
      then Some (VPtr p, (\<lambda>a. if p \<le> a \<and> a < p + nat n then word_of_int c else m a))
      else None)"
| "c_memset _ m = None"

section \<open>Integer types of the target\<close>

text \<open>
  The width of \<^verbatim>\<open>long\<close> and of a pointer is fixed by the target, not by the headers,
  so it is a parameter. The C language promises at least 16 bits for \<^verbatim>\<open>int\<close>, 32 for
  \<^verbatim>\<open>long\<close> and 64 for \<^verbatim>\<open>long long\<close>. The 64-bit targets of the Microsoft compiler
  keep \<^verbatim>\<open>long\<close> at 32 bits beside 64-bit pointers (\<open>llp64\<close>); its 32-bit targets have
  both at 32 bits (\<open>ilp32\<close>).
\<close>

record data_model =
  int_bits :: nat
  long_bits :: nat
  llong_bits :: nat
  ptr_bits :: nat

definition ilp32 :: data_model where
  "ilp32 = \<lparr>int_bits = 32, long_bits = 32, llong_bits = 64, ptr_bits = 32\<rparr>"

definition llp64 :: data_model where
  "llp64 = \<lparr>int_bits = 32, long_bits = 32, llong_bits = 64, ptr_bits = 64\<rparr>"

fun ctype_bits :: "data_model \<Rightarrow> ctype \<Rightarrow> nat" where
  "ctype_bits dm CInt = int_bits dm"
| "ctype_bits dm CLong = long_bits dm"
| "ctype_bits dm CULong = long_bits dm"
| "ctype_bits dm CLongLong = llong_bits dm"

fun ctype_signed :: "ctype \<Rightarrow> bool" where
  "ctype_signed CInt = True"
| "ctype_signed CLong = True"
| "ctype_signed CULong = False"
| "ctype_signed CLongLong = True"

definition fits :: "data_model \<Rightarrow> ctype \<Rightarrow> int \<Rightarrow> bool" where
  "fits dm t v =
     (if ctype_signed t
      then - (2 ^ (ctype_bits dm t - 1)) \<le> v \<and> v < 2 ^ (ctype_bits dm t - 1)
      else 0 \<le> v \<and> v < 2 ^ ctype_bits dm t)"

text \<open>
  A type holds every difference of two pointers when it is signed and at least as wide
  as a pointer.
\<close>

definition holds_ptrdiff :: "data_model \<Rightarrow> ctype \<Rightarrow> bool" where
  "holds_ptrdiff dm t = (ctype_signed t \<and> ptr_bits dm \<le> ctype_bits dm t)"

section \<open>The names the headers are to provide\<close>

text \<open>
  The exported names, header by header, and the number of arguments POSIX gives each
  of the functions among them.
\<close>

definition strings_surface :: "ident list" where
  "strings_surface = [''strcasecmp'', ''strncasecmp'', ''bzero'']"

definition unistd_surface :: "ident list" where
  "unistd_surface =
     [''ssize_t'', ''F_OK'', ''X_OK'', ''W_OK'', ''R_OK'', ''access'', ''dup2'',
      ''fileno'', ''getpid'', ''isatty'', ''lseek'', ''read'', ''write'', ''close'',
      ''unlink'']"

definition posix_arity :: "(ident \<times> nat) list" where
  "posix_arity =
     [(''strcasecmp'', 2), (''strncasecmp'', 3), (''bzero'', 2), (''access'', 2),
      (''dup2'', 2), (''fileno'', 1), (''getpid'', 0), (''isatty'', 1), (''lseek'', 3),
      (''read'', 3), (''write'', 3), (''close'', 1), (''unlink'', 1)]"

text \<open>
  The aliases of a header, read off its directives: every \<^verbatim>\<open>#define n t\<close> whose
  replacement is the single identifier \<open>t\<close>, whatever conditional it sits in.
\<close>

fun aliases :: "directive \<Rightarrow> (ident \<times> ident) list"
  and aliases_of :: "directive list \<Rightarrow> (ident \<times> ident) list" where
  "aliases (Define n (ObjectLike (Some (Var t)))) = [(n, t)]"
| "aliases (Define n _) = []"
| "aliases (Ifndef n body) = aliases_of body"
| "aliases (Ifdef n body alt) = aliases_of body @ aliases_of alt"
| "aliases (Typedef t n) = []"
| "aliases (Include h) = []"
| "aliases (IncludeNext h) = []"
| "aliases_of [] = []"
| "aliases_of (d # ds) = aliases d @ aliases_of ds"

text \<open>
  The names whose earlier definition a directive can replace: those it defines outside
  an \<^verbatim>\<open>#ifndef\<close> of the same name. Inside \<^verbatim>\<open>#ifndef k\<close> nothing is run when
  \<open>k\<close> is a macro already, so an earlier definition of \<open>k\<close> is out of reach there.
\<close>

fun overrides :: "directive \<Rightarrow> ident list"
  and overrides_of :: "directive list \<Rightarrow> ident list" where
  "overrides (Define n m) = [n]"
| "overrides (Ifndef k body) = filter (\<lambda>n. n \<noteq> k) (overrides_of body)"
| "overrides (Ifdef k body alt) = overrides_of body @ overrides_of alt"
| "overrides (Typedef t n) = []"
| "overrides (Include h) = []"
| "overrides (IncludeNext h) = []"
| "overrides_of [] = []"
| "overrides_of (d # ds) = overrides d @ overrides_of ds"

text \<open>
  Modelled from the spec: the headers of the Microsoft runtime (\<^verbatim>\<open><io.h>\<close>,
  \<^verbatim>\<open><process.h>\<close>, \<^verbatim>\<open><string.h>\<close>, ...) are not part of the repository. The
  specification has each POSIX name forward to the runtime's underscore-prefixed
  equivalent with the POSIX calling convention, and \<^verbatim>\<open>bzero\<close> to the memory-fill
  primitive; so the runtime is taken to declare exactly these functions, each with the
  number of arguments of its POSIX counterpart (three for \<^verbatim>\<open>memset\<close>). None of the
  POSIX names themselves is in the table.
\<close>

definition msvcrt_functions :: "(ident \<times> nat) list" where
  "msvcrt_functions =
     [(''_stricmp'', 2), (''_strnicmp'', 3), (''memset'', 3), (''_access'', 2),
      (''_dup2'', 2), (''_fileno'', 1), (''_getpid'', 0), (''_isatty'', 1),
      (''_lseek'', 3), (''_read'', 3), (''_write'', 3), (''_close'', 1), (''_unlink'', 1)]"

text \<open>
  A call written with a name is usable when the preprocessor turns it into a call of
  a function the runtime declares, with as many arguments as that function takes, each
  of them a value. A call has succeeded when it returned the integer 0, as
  \<^verbatim>\<open>access\<close> and \<^verbatim>\<open>_access\<close> do on success.
\<close>

fun runtime_call :: "expand_error + expr \<Rightarrow> bool" where
  "runtime_call (Inr (Call f as)) =
     ((f, length as) \<in> set msvcrt_functions \<and> eval_args as \<noteq> None)"
| "runtime_call _ = False"

definition usable_call :: "tu \<Rightarrow> ident \<Rightarrow> val list \<Rightarrow> bool" where
  "usable_call s n vs = runtime_call (expand s (Call n (map Lit vs)))"

fun succeeded :: "(val \<times> 'w) option \<Rightarrow> bool" where
  "succeeded (Some (VInt v, w)) = (v = 0)"
| "succeeded _ = False"

text \<open>
  A translation unit for the Microsoft runtime in which \<^verbatim>\<open>read\<close> is a function-like
  macro before the shim is included, as a host's own compatibility header may leave it.
\<close>

definition msc_read_tu :: tu where
  "msc_read_tu =
     msc_tu\<lparr>macros := (macros msc_tu)
       (''read'' \<mapsto>
          FunctionLike [''f'', ''b'', ''s'']
            (Call ''host_read'' [Var ''f'', Var ''b'', Var ''s'']))\<rparr>"

text \<open>
  A translation unit for the Microsoft runtime whose host headers have already made
  \<^verbatim>\<open>strcasecmp\<close>, \<^verbatim>\<open>ssize_t\<close> and \<^verbatim>\<open>X_OK\<close> macros of their own.
\<close>

definition msc_host_tu :: tu where
  "msc_host_tu =
     msc_tu\<lparr>macros := (macros msc_tu)
       (''strcasecmp'' \<mapsto> ObjectLike (Some (Var ''host_stricmp'')),
        ''ssize_t'' \<mapsto> ObjectLike (Some (Var ''__int64'')),
        ''X_OK'' \<mapsto> ObjectLike (Some (Lit (VInt 1))))\<rparr>"

text \<open>
  A translation unit for the Microsoft runtime in which \<^verbatim>\<open>ssize_t\<close> is no macro
  but has already been declared, by \<^verbatim>\<open>typedef long long ssize_t;\<close>.
\<close>

definition msc_typedef_tu :: tu where
  "msc_typedef_tu = msc_tu\<lparr>typedefs := [''ssize_t'' \<mapsto> CLongLong]\<rparr>"

text \<open>
  A translation unit that has not met any of the names yet: neither the exported names
  nor the runtime functions they stand for are macros.
\<close>

definition pristine :: "tu \<Rightarrow> bool" where
  "pristine s =
     list_all (\<lambda>n. macros s n = None)
       (strings_surface @ unistd_surface @
        map snd (aliases_of strings_h @ aliases_of unistd_h) @ [''memset''])"

text \<open>
  A small runtime to run calls on: the world is a count of failed calls; \<^verbatim>\<open>_access\<close>
  finds only the path \<^verbatim>\<open>/present\<close>, \<^verbatim>\<open>_read\<close> always fails, \<^verbatim>\<open>_stricmp\<close> reports
  a difference, and every other call returns 0.
\<close>

definition toy_rt :: "nat runtime" where
  "toy_rt f vs w =
     (if f = ''_access''
      then (if vs = [VStr ''/present'', VInt 0] then Some (VInt 0, w)
            else Some (VInt (- 1), Suc w))
      else if f = ''_read'' then Some (VInt (- 1), Suc w)
      else if f = ''_stricmp'' then Some (VInt 1, w)
      else Some (VInt 0, w))"

section \<open>What each directive does to each part of the state\<close>

lemma macros_define_macro:
  "macros (define_macro k m s) n = (if n = k then Some m else macros s n)"
  by (simp add: define_macro_def split: option.splits)

lemma typedefs_define_macro: "typedefs (define_macro k m s) = typedefs s"
  by (simp add: define_macro_def split: option.splits)

lemma included_define_macro: "included (define_macro k m s) = included s"
  by (simp add: define_macro_def split: option.splits)

lemma diags_define_macro:
  "diags (define_macro k m s) =
     (if macros s k = None \<or> macros s k = Some m then diags s
      else diags s @ [Macro_redefined k])"
  by (auto simp add: define_macro_def split: option.splits)

lemma macros_typedef_decl: "macros (typedef_decl t n s) = macros s"
  by (simp add: typedef_decl_def split: option.splits)

lemma typedefs_typedef_decl:
  "typedefs (typedef_decl t n s) k =
     (if k = n \<and> typedefs s n = None then Some t else typedefs s k)"
  by (simp add: typedef_decl_def split: option.splits)

lemma included_typedef_decl: "included (typedef_decl t n s) = included s"
  by (simp add: typedef_decl_def split: option.splits)

lemma diags_typedef_decl:
  "diags (typedef_decl t n s) =
     (if typedefs s n = None \<or> typedefs s n = Some t then diags s
      else diags s @ [Typedef_conflict n])"
  by (auto simp add: typedef_decl_def split: option.splits)

lemma sys_include_sel:
  "macros (sys_include h s) = macros s"
  "typedefs (sys_include h s) = typedefs s"
  "included (sys_include h s) = included s @ [h]"
  "diags (sys_include h s) = diags s"
  by (simp_all add: sys_include_def)

lemmas sel_simps = macros_define_macro typedefs_define_macro included_define_macro
  diags_define_macro macros_typedef_decl typedefs_typedef_decl included_typedef_decl
  diags_typedef_decl sys_include_sel

text \<open>A definition wrapped in its own \<^verbatim>\<open>#ifndef\<close>.\<close>

lemma guarded_define_sel:
  "macros (exec (Ifndef k [Define k m]) s) n =
     (if n = k \<and> macros s k = None then Some m else macros s n)"
  "typedefs (exec (Ifndef k [Define k m]) s) = typedefs s"
  "included (exec (Ifndef k [Define k m]) s) = included s"
  "diags (exec (Ifndef k [Define k m]) s) = diags s"
  by (simp_all add: sel_simps)

lemma guarded_typedef_sel:
  "macros (exec (Ifndef k [Typedef t n]) s) = macros s"
  "typedefs (exec (Ifndef k [Typedef t n]) s) j =
     (if j = n \<and> macros s k = None \<and> typedefs s n = None then Some t else typedefs s j)"
  "included (exec (Ifndef k [Typedef t n]) s) = included s"
  "diags (exec (Ifndef k [Typedef t n]) s) =
     (if macros s k = None \<and> typedefs s n \<noteq> None \<and> typedefs s n \<noteq> Some t
      then diags s @ [Typedef_conflict n] else diags s)"
  by (auto simp add: sel_simps)

text \<open>There is no \<^verbatim>\<open>#undef\<close>: a macro that is defined stays defined.\<close>

lemma defined_mono:
  "macros s g = Some y \<Longrightarrow> \<exists>z. macros (exec d s) g = Some z"
  "macros s g = Some y \<Longrightarrow> \<exists>z. macros (execs ds s) g = Some z"
  by (induction d s and ds s arbitrary: y and y rule: exec_execs.induct)
     (auto simp add: sel_simps)

subsection \<open>A header inside its include guard\<close>

lemma guarded_header_skip:
  "macros s g = Some y \<Longrightarrow> execs [Ifndef g body] s = s"
  by simp

lemma guarded_header_enter:
  "macros s g = None \<Longrightarrow>
     execs [Ifndef g (Define g m # body)] s = execs body (define_macro g m s)"
  by simp

lemma guarded_header_twice:
  "execs [Ifndef g (Define g m # body)] (execs [Ifndef g (Define g m # body)] s)
     = execs [Ifndef g (Define g m # body)] s"
proof (cases "macros s g")
  case None
  have "macros (define_macro g m s) g = Some m"
    by (simp add: macros_define_macro)
  then obtain z where "macros (execs body (define_macro g m s)) g = Some z"
    using defined_mono(2) by blast
  then show ?thesis
    unfolding guarded_header_enter [OF None] by (rule guarded_header_skip)
next
  case (Some y)
  show ?thesis
    unfolding guarded_header_skip [OF Some] by (rule refl)
qed

lemma strings_h_skip:
  "macros s ''KREUZBERG_RUBY_STRINGS_H'' = Some y \<Longrightarrow> execs strings_h s = s"
  unfolding strings_h_def by (rule guarded_header_skip)

lemma unistd_h_skip:
  "macros s ''KREUZBERG_RUBY_UNISTD_H'' = Some y \<Longrightarrow> execs unistd_h s = s"
  unfolding unistd_h_def by (rule guarded_header_skip)

lemma strings_h_first:
  assumes "macros s ''KREUZBERG_RUBY_STRINGS_H'' = None"
  shows "execs strings_h s =
           (if msc s
            then execs strings_msc
                   (sys_include ''string.h''
                      (define_macro ''KREUZBERG_RUBY_STRINGS_H'' (ObjectLike None) s))
            else sys_include ''string.h''
                   (define_macro ''KREUZBERG_RUBY_STRINGS_H'' (ObjectLike None) s))"
  using assms by (simp add: strings_h_def msc_def sel_simps)

lemma unistd_h_first:
  assumes "macros s ''KREUZBERG_RUBY_UNISTD_H'' = None"
  shows "execs unistd_h s =
           (if msc s
            then execs unistd_msc
                   (define_macro ''KREUZBERG_RUBY_UNISTD_H'' (ObjectLike None) s)
            else sys_include ''unistd.h''
                   (define_macro ''KREUZBERG_RUBY_UNISTD_H'' (ObjectLike None) s))"
  using assms by (simp add: unistd_h_def msc_def sel_simps)

text \<open>The macro environment after the Microsoft branch of each header.\<close>

lemma macros_strings_msc:
  "macros (execs strings_msc s) n =
     (if n = ''strcasecmp'' \<and> macros s ''strcasecmp'' = None
        then Some (ObjectLike (Some (Var ''_stricmp'')))
      else if n = ''strncasecmp'' \<and> macros s ''strncasecmp'' = None
        then Some (ObjectLike (Some (Var ''_strnicmp'')))
      else if n = ''bzero'' \<and> macros s ''bzero'' = None
        then Some (FunctionLike [''ptr'', ''size'']
               (Call ''memset'' [Paren (Var ''ptr''), Lit (VInt 0), Paren (Var ''size'')]))
      else macros s n)"
  by (simp add: strings_msc_def guarded_define_sel sys_include_sel del: exec.simps(1))

lemma macros_unistd_msc:
  "macros (execs unistd_msc s) n =
     (if n = ''unlink'' then Some (ObjectLike (Some (Var ''_unlink'')))
      else if n = ''close'' then Some (ObjectLike (Some (Var ''_close'')))
      else if n = ''write'' then Some (ObjectLike (Some (Var ''_write'')))
      else if n = ''read'' then Some (ObjectLike (Some (Var ''_read'')))
      else if n = ''lseek'' then Some (ObjectLike (Some (Var ''_lseek'')))
      else if n = ''isatty'' then Some (ObjectLike (Some (Var ''_isatty'')))
      else if n = ''getpid'' then Some (ObjectLike (Some (Var ''_getpid'')))
      else if n = ''fileno'' then Some (ObjectLike (Some (Var ''_fileno'')))
      else if n = ''dup2'' then Some (ObjectLike (Some (Var ''_dup2'')))
      else if n = ''access'' then Some (ObjectLike (Some (Var ''_access'')))
      else if n = ''R_OK'' \<and> macros s ''R_OK'' = None then Some (ObjectLike (Some (Lit (VInt 4))))
      else if n = ''W_OK'' \<and> macros s ''W_OK'' = None then Some (ObjectLike (Some (Lit (VInt 2))))
      else if n = ''X_OK'' \<and> macros s ''X_OK'' = None then Some (ObjectLike (Some (Lit (VInt 0))))
      else if n = ''F_OK'' \<and> macros s ''F_OK'' = None then Some (ObjectLike (Some (Lit (VInt 0))))
      else macros s n)"
  by (simp add: unistd_msc_def guarded_define_sel guarded_typedef_sel sel_simps
           del: exec.simps(1))

lemma typedefs_strings_msc: "typedefs (execs strings_msc s) = typedefs s"
  by (simp add: strings_msc_def guarded_define_sel sys_include_sel del: exec.simps(1))

lemma diags_strings_msc: "diags (execs strings_msc s) = diags s"
  by (simp add: strings_msc_def guarded_define_sel sys_include_sel del: exec.simps(1))

lemma included_strings_msc: "included (execs strings_msc s) = included s @ [''ctype.h'']"
  by (simp add: strings_msc_def guarded_define_sel sys_include_sel del: exec.simps(1))

lemma typedefs_unistd_msc:
  "typedefs (execs unistd_msc s) n =
     (if n = ''ssize_t'' \<and> macros s ''ssize_t'' = None \<and> typedefs s ''ssize_t'' = None
      then Some CLong else typedefs s n)"
  by (simp add: unistd_msc_def guarded_define_sel guarded_typedef_sel sel_simps
           del: exec.simps(1))

lemma included_unistd_msc:
  "included (execs unistd_msc s) =
     included s @ [''direct.h'', ''io.h'', ''process.h'', ''stdlib.h'']"
  by (simp add: unistd_msc_def guarded_define_sel guarded_typedef_sel sel_simps
           del: exec.simps(1))

subsection \<open>After a first inclusion for the Microsoft runtime\<close>

lemma macros_strings_h_msc:
  assumes "msc s" and "macros s ''KREUZBERG_RUBY_STRINGS_H'' = None"
  shows "macros (execs strings_h s) n =
     (if n = ''strcasecmp'' \<and> macros s ''strcasecmp'' = None
        then Some (ObjectLike (Some (Var ''_stricmp'')))
      else if n = ''strncasecmp'' \<and> macros s ''strncasecmp'' = None
        then Some (ObjectLike (Some (Var ''_strnicmp'')))
      else if n = ''bzero'' \<and> macros s ''bzero'' = None
        then Some (FunctionLike [''ptr'', ''size'']
               (Call ''memset'' [Paren (Var ''ptr''), Lit (VInt 0), Paren (Var ''size'')]))
      else if n = ''KREUZBERG_RUBY_STRINGS_H'' then Some (ObjectLike None)
      else macros s n)"
  using assms by (simp add: strings_h_first macros_strings_msc sel_simps)

lemma macros_unistd_h_msc:
  assumes "msc s" and "macros s ''KREUZBERG_RUBY_UNISTD_H'' = None"
  shows "macros (execs unistd_h s) n =
     (if n = ''unlink'' then Some (ObjectLike (Some (Var ''_unlink'')))
      else if n = ''close'' then Some (ObjectLike (Some (Var ''_close'')))
      else if n = ''write'' then Some (ObjectLike (Some (Var ''_write'')))
      else if n = ''read'' then Some (ObjectLike (Some (Var ''_read'')))
      else if n = ''lseek'' then Some (ObjectLike (Some (Var ''_lseek'')))
      else if n = ''isatty'' then Some (ObjectLike (Some (Var ''_isatty'')))
      else if n = ''getpid'' then Some (ObjectLike (Some (Var ''_getpid'')))
      else if n = ''fileno'' then Some (ObjectLike (Some (Var ''_fileno'')))
      else if n = ''dup2'' then Some (ObjectLike (Some (Var ''_dup2'')))
      else if n = ''access'' then Some (ObjectLike (Some (Var ''_access'')))
      else if n = ''R_OK'' \<and> macros s ''R_OK'' = None
        then Some (ObjectLike (Some (Lit (VInt 4))))
      else if n = ''W_OK'' \<and> macros s ''W_OK'' = None
        then Some (ObjectLike (Some (Lit (VInt 2))))
      else if n = ''X_OK'' \<and> macros s ''X_OK'' = None
        then Some (ObjectLike (Some (Lit (VInt 0))))
      else if n = ''F_OK'' \<and> macros s ''F_OK'' = None
        then Some (ObjectLike (Some (Lit (VInt 0))))
      else if n = ''KREUZBERG_RUBY_UNISTD_H'' then Some (ObjectLike None)
      else macros s n)"
  using assms by (simp add: unistd_h_first macros_unistd_msc sel_simps)

lemma typedefs_unistd_h_msc:
  assumes "msc s" and "macros s ''KREUZBERG_RUBY_UNISTD_H'' = None"
  shows "typedefs (execs unistd_h s) n =
     (if n = ''ssize_t'' \<and> macros s ''ssize_t'' = None \<and> typedefs s ''ssize_t'' = None
      then Some CLong else typedefs s n)"
  using assms by (simp add: unistd_h_first typedefs_unistd_msc sel_simps)

lemma aliases_of_strings_h:
  "aliases_of strings_h = [(''strcasecmp'', ''_stricmp''), (''strncasecmp'', ''_strnicmp'')]"
  by (simp add: strings_h_def strings_msc_def)

lemma aliases_of_unistd_h:
  "aliases_of unistd_h =
     [(''access'', ''_access''), (''dup2'', ''_dup2''), (''fileno'', ''_fileno''),
      (''getpid'', ''_getpid''), (''isatty'', ''_isatty''), (''lseek'', ''_lseek''),
      (''read'', ''_read''), (''write'', ''_write''), (''close'', ''_close''),
      (''unlink'', ''_unlink'')]"
  by (simp add: unistd_h_def unistd_msc_def)

subsection \<open>Calls with values as arguments\<close>

lemma expands_lits: "expands s (map Lit vs) = Inr (map Lit vs)"
  by (induction vs) simp_all

lemma eval_args_lits: "eval_args (map Lit vs) = Some vs"
  by (induction vs) simp_all

lemma alias_call:
  assumes "macros s n = Some (ObjectLike (Some (Var t)))" and "macros s t = None"
  shows "shim_call rt s (Call n (map Lit vs)) w = rt t vs w"
  using assms by (simp add: shim_call_def expands_lits eval_args_lits)

lemma unistd_alias_macros:
  assumes "msc s" and "macros s ''KREUZBERG_RUBY_UNISTD_H'' = None"
  shows "list_all (\<lambda>(n, t). macros (execs unistd_h s) n = Some (ObjectLike (Some (Var t)))
                      \<and> macros (execs unistd_h s) t = macros s t)
           (aliases_of unistd_h)"
  unfolding aliases_of_unistd_h
  by (simp add: macros_unistd_h_msc [OF assms])

lemma strings_alias_macros:
  assumes "msc s" and "macros s ''KREUZBERG_RUBY_STRINGS_H'' = None"
  shows "list_all (\<lambda>(n, t). (macros s n = None \<longrightarrow>
                        macros (execs strings_h s) n = Some (ObjectLike (Some (Var t))))
                      \<and> macros (execs strings_h s) t = macros s t)
           (aliases_of strings_h)"
  unfolding aliases_of_strings_h
  by (simp add: macros_strings_h_msc [OF assms])

lemma unistd_alias_call:
  assumes "msc s" and "macros s ''KREUZBERG_RUBY_UNISTD_H'' = None"
    and "(n, t) \<in> set (aliases_of unistd_h)" and "macros s t = None"
  shows "shim_call rt (execs unistd_h s) (Call n (map Lit vs)) w = rt t vs w"
proof -
  have "macros (execs unistd_h s) n = Some (ObjectLike (Some (Var t)))
          \<and> macros (execs unistd_h s) t = macros s t"
    using unistd_alias_macros [OF assms(1,2)] assms(3)
    unfolding list_all_iff by blast
  with assms(4) show ?thesis
    by (intro alias_call) simp_all
qed

lemma strings_alias_call:
  assumes "msc s" and "macros s ''KREUZBERG_RUBY_STRINGS_H'' = None"
    and "(n, t) \<in> set (aliases_of strings_h)"
    and "macros s n = None" and "macros s t = None"
  shows "shim_call rt (execs strings_h s) (Call n (map Lit vs)) w = rt t vs w"
proof -
  have "(macros s n = None \<longrightarrow>
           macros (execs strings_h s) n = Some (ObjectLike (Some (Var t))))
          \<and> macros (execs strings_h s) t = macros s t"
    using strings_alias_macros [OF assms(1,2)] assms(3)
    unfolding list_all_iff by blast
  with assms(4,5) show ?thesis
    by (intro alias_call) simp_all
qed

subsection \<open>Macros that were there before\<close>

lemma exec_keeps:
  "macros s n = Some d \<Longrightarrow> n \<notin> set (overrides dir) \<Longrightarrow> macros (exec dir s) n = Some d"
  "macros s n = Some d \<Longrightarrow> n \<notin> set (overrides_of dirs) \<Longrightarrow> macros (execs dirs s) n = Some d"
  by (induction dir s and dirs s rule: exec_execs.induct) (auto simp add: sel_simps)

lemma overrides_of_strings_h: "overrides_of strings_h = []"
  by (simp add: strings_h_def strings_msc_def)

lemma overrides_of_unistd_h:
  "overrides_of unistd_h =
     [''access'', ''dup2'', ''fileno'', ''getpid'', ''isatty'', ''lseek'', ''read'',
      ''write'', ''close'', ''unlink'']"
  by (simp add: unistd_h_def unistd_msc_def)

lemma strings_h_keeps:
  assumes "macros s n = Some d"
  shows "macros (execs strings_h s) n = Some d"
  using assms by (rule exec_keeps(2)) (simp add: overrides_of_strings_h)

lemma unistd_h_keeps:
  assumes "macros s n = Some d" and "n \<notin> set (overrides_of unistd_h)"
  shows "macros (execs unistd_h s) n = Some d"
  using assms by (rule exec_keeps(2))

lemma pristine_names:
  assumes "pristine s"
  shows "\<forall>n \<in> set strings_surface. macros s n = None"
    and "\<forall>n \<in> set unistd_surface. macros s n = None"
    and "\<forall>(n, t) \<in> set (aliases_of strings_h). macros s t = None"
    and "\<forall>(n, t) \<in> set (aliases_of unistd_h). macros s t = None"
    and "macros s ''memset'' = None"
  using assms unfolding pristine_def list_all_iff by force+

subsection \<open>Typedef conflicts\<close>

lemma conflict_define_macro:
  "Typedef_conflict n \<in> set (diags (define_macro k m s)) \<longleftrightarrow>
     Typedef_conflict n \<in> set (diags s)"
  unfolding diags_define_macro by simp

lemma conflict_guarded_define:
  "Typedef_conflict n \<in> set (diags (exec (Ifndef k [Define k m]) s)) \<longleftrightarrow>
     Typedef_conflict n \<in> set (diags s)"
  unfolding guarded_define_sel by simp

lemma conflict_unistd_msc:
  "Typedef_conflict ''ssize_t'' \<in> set (diags (execs unistd_msc s)) \<longleftrightarrow>
     Typedef_conflict ''ssize_t'' \<in> set (diags s) \<or>
     (macros s ''ssize_t'' = None \<and> typedefs s ''ssize_t'' \<noteq> None \<and>
      typedefs s ''ssize_t'' \<noteq> Some CLong)"
  by (auto simp add: unistd_msc_def conflict_define_macro conflict_guarded_define
        guarded_define_sel guarded_typedef_sel sys_include_sel
        simp del: exec.simps(1))

lemma conflict_unistd_h_msc:
  assumes "msc s" and "macros s ''KREUZBERG_RUBY_UNISTD_H'' = None"
  shows "Typedef_conflict ''ssize_t'' \<in> set (diags (execs unistd_h s)) \<longleftrightarrow>
     Typedef_conflict ''ssize_t'' \<in> set (diags s) \<or>
     (macros s ''ssize_t'' = None \<and> typedefs s ''ssize_t'' \<noteq> None \<and>
      typedefs s ''ssize_t'' \<noteq> Some CLong)"
  using assms by (simp add: unistd_h_first conflict_unistd_msc sel_simps)

subsection \<open>Calls that reach the runtime\<close>

lemma alias_usable:
  assumes "macros s n = Some (ObjectLike (Some (Var t)))" and "macros s t = None"
    and "(t, length vs) \<in> set msvcrt_functions"
  shows "usable_call s n vs"
  using assms by (simp add: usable_call_def expands_lits eval_args_lits)

lemma bzero_usable:
  assumes "macros s ''bzero'' =
             Some (FunctionLike [''ptr'', ''size'']
                (Call ''memset'' [Paren (Var ''ptr''), Lit (VInt 0), Paren (Var ''size'')]))"
    and "macros s ''memset'' = None" and "length vs = 2"
  shows "usable_call s ''bzero'' vs"
proof -
  from assms(3) obtain a b where vs: "vs = [a, b]"
    by (cases vs; cases "tl vs") auto
  show ?thesis
    using assms(1,2) unfolding vs
    by (simp add: usable_call_def settled_def msvcrt_functions_def)
qed

lemma alias_arities:
  "\<forall>(n, t) \<in> set (aliases_of strings_h @ aliases_of unistd_h).
     \<forall>k. (n, k) \<in> set posix_arity \<longrightarrow> (t, k) \<in> set msvcrt_functions"
  by (simp add: aliases_of_strings_h aliases_of_unistd_h posix_arity_def msvcrt_functions_def)

lemma strings_h_quiet: "diags (execs strings_h s) = diags s"
  by (cases "macros s ''KREUZBERG_RUBY_STRINGS_H''")
     (simp_all add: strings_h_first strings_h_skip diags_strings_msc sel_simps)

lemma unistd_h_quiet:
  assumes "list_all (\<lambda>n. macros s n = None) (overrides_of unistd_h)"
    and "macros s ''ssize_t'' \<noteq> None \<or> typedefs s ''ssize_t'' = None \<or>
         typedefs s ''ssize_t'' = Some CLong"
  shows "diags (execs unistd_h s) = diags s"
proof (cases "macros s ''KREUZBERG_RUBY_UNISTD_H''")
  case None
  show ?thesis
  proof (cases "msc s")
    case True
    from assms show ?thesis
      unfolding unistd_h_first [OF None] overrides_of_unistd_h using True None
      by (simp add: unistd_msc_def guarded_define_sel guarded_typedef_sel sel_simps
            del: exec.simps(1))
  next
    case False
    then show ?thesis
      by (simp add: unistd_h_first [OF None] sel_simps None)
  qed
next
  case (Some y)
  then show ?thesis by (simp add: unistd_h_skip)
qed

lemma strings_alias_usable:
  assumes "msc s" and "macros s ''KREUZBERG_RUBY_STRINGS_H'' = None" and "pristine s"
    and "(n, t) \<in> set (aliases_of strings_h)" and "(n, length vs) \<in> set posix_arity"
  shows "usable_call (execs strings_h s) n vs"
proof (rule alias_usable)
  have "macros s n = None"
    using pristine_names(1) [OF assms(3)] assms(4)
    by (auto simp add: aliases_of_strings_h strings_surface_def)
  moreover have "(macros s n = None \<longrightarrow>
           macros (execs strings_h s) n = Some (ObjectLike (Some (Var t))))
          \<and> macros (execs strings_h s) t = macros s t"
    using strings_alias_macros [OF assms(1,2)] assms(4) unfolding list_all_iff by blast
  moreover have "macros s t = None"
    using pristine_names(3) [OF assms(3)] assms(4) by blast
  ultimately show "macros (execs strings_h s) n = Some (ObjectLike (Some (Var t)))"
    and "macros (execs strings_h s) t = None"
    by simp_all
  show "(t, length vs) \<in> set msvcrt_functions"
    using alias_arities assms(4,5) by fastforce
qed

lemma unistd_alias_usable:
  assumes "msc s" and "macros s ''KREUZBERG_RUBY_UNISTD_H'' = None" and "pristine s"
    and "(n, t) \<in> set (aliases_of unistd_h)" and "(n, length vs) \<in> set posix_arity"
  shows "usable_call (execs unistd_h s) n vs"
proof (rule alias_usable)
  have "macros (execs unistd_h s) n = Some (ObjectLike (Some (Var t)))
          \<and> macros (execs unistd_h s) t = macros s t"
    using unistd_alias_macros [OF assms(1,2)] assms(4) unfolding list_all_iff by blast
  moreover have "macros s t = None"
    using pristine_names(4) [OF assms(3)] assms(4) by blast
  ultimately show "macros (execs unistd_h s) n = Some (ObjectLike (Some (Var t)))"
    and "macros (execs unistd_h s) t = None"
    by simp_all
  show "(t, length vs) \<in> set msvcrt_functions"
    using alias_arities assms(4,5) by fastforce
qed

lemma surface_functions:
  "list_all (\<lambda>(n, k). n \<in> set strings_surface \<longrightarrow>
               (n = ''bzero'' \<and> k = 2) \<or> (\<exists>t. (n, t) \<in> set (aliases_of strings_h)))
     posix_arity"
  "list_all (\<lambda>(n, k). n \<in> set unistd_surface \<longrightarrow>
               (\<exists>t. (n, t) \<in> set (aliases_of unistd_h)))
     posix_arity"
  by (simp_all add: posix_arity_def strings_surface_def unistd_surface_def
        aliases_of_strings_h aliases_of_unistd_h)

subsection \<open>Over any system\<close>

lemma exec_in_sys_include:
  "exec_in sys_include d s = exec d s"
  "execs_in sys_include ds s = execs ds s"
  by (induction d s and ds s rule: exec_execs.induct) simp_all




section \<open>The claims\<close>

text \<open>
  C10. On every platform, whether or not \<^verbatim>\<open>_MSC_VER\<close> is defined, including the
  shim \<^verbatim>\<open>strings.h\<close> leaves its guard macro \<^verbatim>\<open>KREUZBERG_RUBY_STRINGS_H\<close> defined,
  and an inclusion that gets past the guard defines it (with an empty replacement)
  and reads \<^verbatim>\<open><string.h>\<close> before anything else; only the read of
  \<^verbatim>\<open><ctype.h>\<close> that follows depends on the runtime.
\<close>

theorem strings_h_always_reads_string_h:
  "macros (execs strings_h s) ''KREUZBERG_RUBY_STRINGS_H'' \<noteq> None \<and>
   (macros s ''KREUZBERG_RUBY_STRINGS_H'' = None \<longrightarrow>
      macros (execs strings_h s) ''KREUZBERG_RUBY_STRINGS_H'' = Some (ObjectLike None) \<and>
      included (execs strings_h s) =
        included s @ ''string.h'' # (if msc s then [''ctype.h''] else []))"
proof (cases "macros s ''KREUZBERG_RUBY_STRINGS_H''")
  case None
  then show ?thesis
    by (simp add: strings_h_first macros_strings_msc included_strings_msc sel_simps)
next
  case (Some y)
  then show ?thesis
    by (simp add: strings_h_skip)
qed

theorem strings_h_always_reads_string_h_witness:
  "macros posix_tu ''KREUZBERG_RUBY_STRINGS_H'' = None \<and> \<not> msc posix_tu \<and>
   macros (execs strings_h posix_tu) ''KREUZBERG_RUBY_STRINGS_H'' = Some (ObjectLike None) \<and>
   included (execs strings_h posix_tu) = [''string.h''] \<and>
   macros msc_tu ''KREUZBERG_RUBY_STRINGS_H'' = None \<and> msc msc_tu \<and>
   included (execs strings_h msc_tu) = [''string.h'', ''ctype.h'']"
  using strings_h_always_reads_string_h [of posix_tu]
    strings_h_always_reads_string_h [of msc_tu]
  by (simp add: posix_tu_def msc_tu_def msc_def)

text \<open>
  C2, as stated: including either header any number of times, in any macro
  environment, reports no redefinition. That fails at the first inclusion of
  \<^verbatim>\<open>unistd.h\<close> already: its ten aliases (lines 28 to 37) are defined without an
  \<^verbatim>\<open>#ifndef\<close> of their own, so where \<^verbatim>\<open>read\<close> is a macro with another
  replacement, \<^verbatim>\<open>#define read _read\<close> redefines it and is reported.
\<close>

theorem unistd_h_redefines_read:
  "msc msc_read_tu \<and> diags msc_read_tu = [] \<and>
   diags (execs unistd_h msc_read_tu) = [Macro_redefined ''read'']"
  by (simp add: msc_read_tu_def msc_tu_def posix_tu_def msc_def unistd_h_def unistd_msc_def
        define_macro_def typedef_decl_def sys_include_def)

text \<open>
  C2, amended. Each header sits inside an include guard, so in every macro environment
  including it twice leaves the translation unit exactly as including it once does,
  and the second inclusion reports nothing. \<^verbatim>\<open>strings.h\<close>, all of whose definitions
  have an \<^verbatim>\<open>#ifndef\<close> of their own, reports nothing at the first inclusion either.
  The first inclusion of \<^verbatim>\<open>unistd.h\<close> reports nothing when none of its alias names
  is a macro with a replacement other than the one the header gives it, and
  \<^verbatim>\<open>ssize_t\<close> is a macro, or is not yet a typedef name, or is one for \<^verbatim>\<open>long\<close>.
\<close>

theorem include_twice_same_as_once:
  "execs strings_h (execs strings_h s) = execs strings_h s \<and>
   execs unistd_h (execs unistd_h s) = execs unistd_h s \<and>
   diags (execs strings_h (execs strings_h s)) = diags (execs strings_h s) \<and>
   diags (execs unistd_h (execs unistd_h s)) = diags (execs unistd_h s) \<and>
   diags (execs strings_h s) = diags s \<and>
   (list_all (\<lambda>(n, t). macros s n = None \<or> macros s n = Some (ObjectLike (Some (Var t))))
       (aliases_of unistd_h) \<and>
    (macros s ''ssize_t'' \<noteq> None \<or> typedefs s ''ssize_t'' = None \<or>
       typedefs s ''ssize_t'' = Some CLong)
      \<longrightarrow> diags (execs unistd_h s) = diags s)"
proof -
  have a: "execs strings_h (execs strings_h s) = execs strings_h s"
    unfolding strings_h_def by (rule guarded_header_twice)
  have b: "execs unistd_h (execs unistd_h s) = execs unistd_h s"
    unfolding unistd_h_def by (rule guarded_header_twice)
  have c: "diags (execs strings_h s) = diags s"
    by (cases "macros s ''KREUZBERG_RUBY_STRINGS_H''")
       (simp_all add: strings_h_first strings_h_skip diags_strings_msc sel_simps)
  have d: "diags (execs unistd_h s) = diags s"
    if "list_all (\<lambda>(n, t). macros s n = None \<or> macros s n = Some (ObjectLike (Some (Var t))))
          (aliases_of unistd_h)"
      and "macros s ''ssize_t'' \<noteq> None \<or> typedefs s ''ssize_t'' = None \<or>
           typedefs s ''ssize_t'' = Some CLong"
  proof (cases "macros s ''KREUZBERG_RUBY_UNISTD_H''")
    case None
    show ?thesis
    proof (cases "msc s")
      case True
      have al: "aliases_of unistd_h = aliases_of unistd_msc"
        by (simp add: unistd_h_def)
      from that show ?thesis
        unfolding unistd_h_first [OF None] al using True None
        by (simp add: unistd_msc_def guarded_define_sel guarded_typedef_sel sel_simps
           del: exec.simps(1))
    next
      case False
      then show ?thesis
        by (simp add: unistd_h_first [OF None] sel_simps None)
    qed
  next
    case (Some y)
    then show ?thesis by (simp add: unistd_h_skip)
  qed
  from a b c d show ?thesis by simp
qed

theorem include_twice_same_as_once_witness:
  "list_all (\<lambda>(n, t). macros msc_tu n = None \<or>
               macros msc_tu n = Some (ObjectLike (Some (Var t))))
     (aliases_of unistd_h) \<and>
   typedefs msc_tu ''ssize_t'' = None \<and>
   diags (execs unistd_h msc_tu) = [] \<and>
   diags (execs unistd_h (execs unistd_h msc_read_tu)) = [Macro_redefined ''read''] \<and>
   diags (execs strings_h msc_read_tu) = []"
proof -
  have h: "list_all (\<lambda>(n, t). macros msc_tu n = None \<or>
               macros msc_tu n = Some (ObjectLike (Some (Var t))))
     (aliases_of unistd_h)"
    by (simp add: msc_tu_def posix_tu_def unistd_h_def unistd_msc_def)
  have t: "typedefs msc_tu ''ssize_t'' = None"
    by (simp add: msc_tu_def posix_tu_def)
  have "diags (execs unistd_h msc_tu) = diags msc_tu"
    using include_twice_same_as_once [of msc_tu] h t by blast
  moreover have "diags (execs unistd_h (execs unistd_h msc_read_tu)) =
                   diags (execs unistd_h msc_read_tu)"
    using include_twice_same_as_once [of msc_read_tu] by blast
  moreover have "diags (execs strings_h msc_read_tu) = diags msc_read_tu"
    using include_twice_same_as_once [of msc_read_tu] by blast
  moreover have "diags (execs unistd_h msc_read_tu) = [Macro_redefined ''read'']"
    by (simp add: msc_read_tu_def msc_tu_def posix_tu_def unistd_h_def unistd_msc_def
          define_macro_def typedef_decl_def sys_include_def)
  ultimately show ?thesis
    using h t by (simp add: msc_read_tu_def msc_tu_def posix_tu_def)
qed

text \<open>
  C8. The aliased functions are the ten of \<^verbatim>\<open>unistd.h\<close> and the two of
  \<^verbatim>\<open>strings.h\<close>. On the Microsoft runtime, after the header has been included, a
  call through the name the shim defined, on any argument values and in any state of
  the world, is the call of the underscore-prefixed runtime function on the same
  arguments: it returns that function's result, error values included, and leaves the
  world as that function leaves it. For \<^verbatim>\<open>strcasecmp\<close> and \<^verbatim>\<open>strncasecmp\<close> the shim
  defines the name when it was not a macro before; the runtime function's own name is
  taken not to be a macro.
\<close>

theorem aliases_forward_unchanged:
  assumes "msc s"
  shows "map fst (aliases_of unistd_h @ aliases_of strings_h) =
           [''access'', ''dup2'', ''fileno'', ''getpid'', ''isatty'', ''lseek'', ''read'',
            ''write'', ''close'', ''unlink'', ''strcasecmp'', ''strncasecmp''] \<and>
         (macros s ''KREUZBERG_RUBY_UNISTD_H'' = None \<longrightarrow>
            (\<forall>(n, t) \<in> set (aliases_of unistd_h). macros s t = None \<longrightarrow>
               shim_call rt (execs unistd_h s) (Call n (map Lit vs)) w = rt t vs w)) \<and>
         (macros s ''KREUZBERG_RUBY_STRINGS_H'' = None \<longrightarrow>
            (\<forall>(n, t) \<in> set (aliases_of strings_h). macros s n = None \<longrightarrow> macros s t = None \<longrightarrow>
               shim_call rt (execs strings_h s) (Call n (map Lit vs)) w = rt t vs w))"
proof (intro conjI impI)
  show "map fst (aliases_of unistd_h @ aliases_of strings_h) =
           [''access'', ''dup2'', ''fileno'', ''getpid'', ''isatty'', ''lseek'', ''read'',
            ''write'', ''close'', ''unlink'', ''strcasecmp'', ''strncasecmp'']"
    by (simp add: aliases_of_unistd_h aliases_of_strings_h)
next
  assume g: "macros s ''KREUZBERG_RUBY_UNISTD_H'' = None"
  show "\<forall>(n, t) \<in> set (aliases_of unistd_h). macros s t = None \<longrightarrow>
          shim_call rt (execs unistd_h s) (Call n (map Lit vs)) w = rt t vs w"
    using unistd_alias_call [OF assms g, where rt = rt and vs = vs and w = w] by auto
next
  assume g: "macros s ''KREUZBERG_RUBY_STRINGS_H'' = None"
  show "\<forall>(n, t) \<in> set (aliases_of strings_h). macros s n = None \<longrightarrow> macros s t = None \<longrightarrow>
          shim_call rt (execs strings_h s) (Call n (map Lit vs)) w = rt t vs w"
    using strings_alias_call [OF assms g, where rt = rt and vs = vs and w = w] by auto
qed

theorem aliases_forward_unchanged_witness:
  "msc msc_tu \<and> macros msc_tu ''KREUZBERG_RUBY_UNISTD_H'' = None \<and>
   macros msc_tu ''KREUZBERG_RUBY_STRINGS_H'' = None \<and>
   (''read'', ''_read'') \<in> set (aliases_of unistd_h) \<and> macros msc_tu ''_read'' = None \<and>
   (''strcasecmp'', ''_stricmp'') \<in> set (aliases_of strings_h) \<and>
   macros msc_tu ''strcasecmp'' = None \<and> macros msc_tu ''_stricmp'' = None \<and>
   shim_call toy_rt (execs unistd_h msc_tu)
     (Call ''read'' (map Lit [VInt 3, VPtr 64, VInt 16])) 0 = Some (VInt (- 1), 1) \<and>
   shim_call toy_rt (execs strings_h msc_tu)
     (Call ''strcasecmp'' (map Lit [VStr ''a'', VStr ''B''])) 0 = Some (VInt 1, 0)"
proof -
  have m: "msc msc_tu"
    by (simp add: msc_def msc_tu_def posix_tu_def)
  have g: "macros msc_tu ''KREUZBERG_RUBY_UNISTD_H'' = None"
    "macros msc_tu ''KREUZBERG_RUBY_STRINGS_H'' = None"
    "macros msc_tu ''_read'' = None" "macros msc_tu ''strcasecmp'' = None"
    "macros msc_tu ''_stricmp'' = None"
    by (simp_all add: msc_tu_def posix_tu_def)
  have r: "(''read'', ''_read'') \<in> set (aliases_of unistd_h)"
    by (simp add: aliases_of_unistd_h)
  have c: "(''strcasecmp'', ''_stricmp'') \<in> set (aliases_of strings_h)"
    by (simp add: aliases_of_strings_h)
  have "shim_call toy_rt (execs unistd_h msc_tu)
          (Call ''read'' (map Lit [VInt 3, VPtr 64, VInt 16])) 0
        = toy_rt ''_read'' [VInt 3, VPtr 64, VInt 16] 0"
    using aliases_forward_unchanged [OF m, of toy_rt "[VInt 3, VPtr 64, VInt 16]" 0,
        THEN conjunct2, THEN conjunct1, THEN mp, OF g(1), THEN bspec, OF r] g(3)
    by simp
  moreover have "shim_call toy_rt (execs strings_h msc_tu)
          (Call ''strcasecmp'' (map Lit [VStr ''a'', VStr ''B''])) 0
        = toy_rt ''_stricmp'' [VStr ''a'', VStr ''B''] 0"
    using aliases_forward_unchanged [OF m, of toy_rt "[VStr ''a'', VStr ''B'']" 0,
        THEN conjunct2, THEN conjunct2, THEN mp, OF g(2), THEN bspec, OF c] g(4,5)
    by simp
  ultimately show ?thesis
    using m g r c by (simp add: toy_rt_def)
qed

text \<open>
  C7. On the Microsoft runtime, after \<^verbatim>\<open>unistd.h\<close> has been included (with
  \<^verbatim>\<open>F_OK\<close> left for the shim to define), \<^verbatim>\<open>access(path, F_OK)\<close> is the call
  \<^verbatim>\<open>_access(path, 0)\<close> of the runtime, for every path: same result, same effect on
  the world, so it succeeds exactly when the runtime's existence check does.
\<close>

theorem access_F_OK_is_native_existence_check:
  assumes "msc s" and "macros s ''KREUZBERG_RUBY_UNISTD_H'' = None"
    and "macros s ''F_OK'' = None" and "macros s ''_access'' = None"
  shows "shim_call rt (execs unistd_h s) (Call ''access'' [Lit (VStr path), Var ''F_OK'']) w
           = rt ''_access'' [VStr path, VInt 0] w \<and>
         (succeeded (shim_call rt (execs unistd_h s)
                       (Call ''access'' [Lit (VStr path), Var ''F_OK'']) w)
            \<longleftrightarrow> succeeded (rt ''_access'' [VStr path, VInt 0] w))"
  using assms(3,4)
  by (simp add: shim_call_def macros_unistd_h_msc [OF assms(1,2)] settled_def)

theorem access_F_OK_is_native_existence_check_witness:
  "msc msc_tu \<and> macros msc_tu ''KREUZBERG_RUBY_UNISTD_H'' = None \<and>
   macros msc_tu ''F_OK'' = None \<and> macros msc_tu ''_access'' = None \<and>
   succeeded (shim_call toy_rt (execs unistd_h msc_tu)
                (Call ''access'' [Lit (VStr ''/present''), Var ''F_OK'']) 0) \<and>
   \<not> succeeded (shim_call toy_rt (execs unistd_h msc_tu)
                (Call ''access'' [Lit (VStr ''/absent''), Var ''F_OK'']) 0) \<and>
   shim_call toy_rt (execs unistd_h msc_tu)
     (Call ''access'' [Lit (VStr ''/absent''), Var ''F_OK'']) 0 = Some (VInt (- 1), 1)"
proof -
  have m: "msc msc_tu"
    by (simp add: msc_def msc_tu_def posix_tu_def)
  have g: "macros msc_tu ''KREUZBERG_RUBY_UNISTD_H'' = None"
    "macros msc_tu ''F_OK'' = None" "macros msc_tu ''_access'' = None"
    by (simp_all add: msc_tu_def posix_tu_def)
  note eq = access_F_OK_is_native_existence_check [OF m g, of toy_rt _ 0, THEN conjunct1]
  show ?thesis
    using m g by (simp add: eq toy_rt_def)
qed

text \<open>
  C6. On the Microsoft runtime, \<^verbatim>\<open>unistd.h\<close> gives the permission constants the values
  \<^verbatim>\<open>F_OK = 0\<close>, \<^verbatim>\<open>X_OK = 0\<close>, \<^verbatim>\<open>W_OK = 2\<close>, \<^verbatim>\<open>R_OK = 4\<close>: each name that
  was not a macro before the inclusion is one with exactly that replacement after it.
  With \<^verbatim>\<open>F_OK\<close> and \<^verbatim>\<open>X_OK\<close> both the shim's, the two expand to the same
  constant 0, and an \<^verbatim>\<open>access\<close> call asking for execute permission is the same call
  as the one asking for existence.
\<close>

theorem permission_constants:
  assumes "msc s" and "macros s ''KREUZBERG_RUBY_UNISTD_H'' = None"
  shows "(macros s ''F_OK'' = None \<longrightarrow>
            macros (execs unistd_h s) ''F_OK'' = Some (ObjectLike (Some (Lit (VInt 0))))) \<and>
         (macros s ''X_OK'' = None \<longrightarrow>
            macros (execs unistd_h s) ''X_OK'' = Some (ObjectLike (Some (Lit (VInt 0))))) \<and>
         (macros s ''W_OK'' = None \<longrightarrow>
            macros (execs unistd_h s) ''W_OK'' = Some (ObjectLike (Some (Lit (VInt 2))))) \<and>
         (macros s ''R_OK'' = None \<longrightarrow>
            macros (execs unistd_h s) ''R_OK'' = Some (ObjectLike (Some (Lit (VInt 4))))) \<and>
         (macros s ''F_OK'' = None \<and> macros s ''X_OK'' = None \<longrightarrow>
            expand (execs unistd_h s) (Var ''F_OK'') = Inr (Lit (VInt 0)) \<and>
            expand (execs unistd_h s) (Var ''X_OK'') = Inr (Lit (VInt 0)) \<and>
            shim_call rt (execs unistd_h s) (Call ''access'' [Lit p, Var ''X_OK'']) w =
            shim_call rt (execs unistd_h s) (Call ''access'' [Lit p, Var ''F_OK'']) w)"
  by (simp add: shim_call_def macros_unistd_h_msc [OF assms] settled_def)

theorem permission_constants_witness:
  "msc msc_tu \<and> macros msc_tu ''KREUZBERG_RUBY_UNISTD_H'' = None \<and>
   macros msc_tu ''F_OK'' = None \<and> macros msc_tu ''X_OK'' = None \<and>
   macros msc_tu ''W_OK'' = None \<and> macros msc_tu ''R_OK'' = None \<and>
   macros (execs unistd_h msc_tu) ''F_OK'' = Some (ObjectLike (Some (Lit (VInt 0)))) \<and>
   macros (execs unistd_h msc_tu) ''X_OK'' = Some (ObjectLike (Some (Lit (VInt 0)))) \<and>
   macros (execs unistd_h msc_tu) ''W_OK'' = Some (ObjectLike (Some (Lit (VInt 2)))) \<and>
   macros (execs unistd_h msc_tu) ''R_OK'' = Some (ObjectLike (Some (Lit (VInt 4)))) \<and>
   expand (execs unistd_h msc_tu) (Var ''X_OK'') = Inr (Lit (VInt 0))"
proof -
  have m: "msc msc_tu"
    by (simp add: msc_def msc_tu_def posix_tu_def)
  have g: "macros msc_tu ''KREUZBERG_RUBY_UNISTD_H'' = None"
    by (simp add: msc_tu_def posix_tu_def)
  have k: "macros msc_tu ''F_OK'' = None" "macros msc_tu ''X_OK'' = None"
    "macros msc_tu ''W_OK'' = None" "macros msc_tu ''R_OK'' = None"
    by (simp_all add: msc_tu_def posix_tu_def)
  show ?thesis
    using permission_constants [OF m g, of toy_rt "VStr ''/present''" 0] m g k
    by (simp add: settled_def)
qed

text \<open>
  C5. On the Microsoft runtime, where \<^verbatim>\<open>strings.h\<close> has defined \<^verbatim>\<open>bzero\<close> (it was
  not a macro before, and \<^verbatim>\<open>memset\<close> is not one), \<^verbatim>\<open>bzero(buf, n)\<close> is rewritten
  to \<^verbatim>\<open>memset((buf), 0, (n))\<close>; run with the C library's \<^verbatim>\<open>memset\<close>, for every
  buffer address and every \<open>n \<ge> 0\<close>, it leaves a memory in which each of the \<open>n\<close>
  bytes from \<open>buf\<close> on is zero and every other byte is as before.
\<close>

theorem bzero_zero_fills:
  assumes "msc s" and "macros s ''KREUZBERG_RUBY_STRINGS_H'' = None"
    and "macros s ''bzero'' = None" and "macros s ''memset'' = None"
    and "0 \<le> n"
  shows "expand (execs strings_h s) (Call ''bzero'' [Lit (VPtr buf), Lit (VInt n)]) =
           Inr (Call ''memset'' [Paren (Lit (VPtr buf)), Lit (VInt 0), Paren (Lit (VInt n))]) \<and>
         (\<exists>m'. shim_call (rt(''memset'' := c_memset)) (execs strings_h s)
                  (Call ''bzero'' [Lit (VPtr buf), Lit (VInt n)]) m = Some (VPtr buf, m') \<and>
               (\<forall>i. i < nat n \<longrightarrow> m' (buf + i) = 0) \<and>
               (\<forall>a. a < buf \<or> buf + nat n \<le> a \<longrightarrow> m' a = m a))"
proof -
  have e: "expand (execs strings_h s) (Call ''bzero'' [Lit (VPtr buf), Lit (VInt n)]) =
           Inr (Call ''memset'' [Paren (Lit (VPtr buf)), Lit (VInt 0), Paren (Lit (VInt n))])"
    using assms(3,4) by (simp add: macros_strings_h_msc [OF assms(1,2)] settled_def)
  have r: "shim_call (rt(''memset'' := c_memset)) (execs strings_h s)
             (Call ''bzero'' [Lit (VPtr buf), Lit (VInt n)]) m =
           Some (VPtr buf, (\<lambda>a. if buf \<le> a \<and> a < buf + nat n then 0 else m a))"
    unfolding shim_call_def e using assms(5) by (simp add: fun_eq_iff)
  show ?thesis
    unfolding r using e by auto
qed

theorem bzero_zero_fills_witness:
  "msc msc_tu \<and> macros msc_tu ''KREUZBERG_RUBY_STRINGS_H'' = None \<and>
   macros msc_tu ''bzero'' = None \<and> macros msc_tu ''memset'' = None \<and> (0::int) \<le> 3 \<and>
   (\<exists>m'. shim_call ((\<lambda>f vs w. None)(''memset'' := c_memset)) (execs strings_h msc_tu)
            (Call ''bzero'' [Lit (VPtr 4), Lit (VInt 3)]) (\<lambda>a. 255) = Some (VPtr 4, m') \<and>
         m' 3 = 255 \<and> m' 4 = 0 \<and> m' 5 = 0 \<and> m' 6 = 0 \<and> m' 7 = 255)"
proof -
  have m: "msc msc_tu"
    by (simp add: msc_def msc_tu_def posix_tu_def)
  have g: "macros msc_tu ''KREUZBERG_RUBY_STRINGS_H'' = None"
    "macros msc_tu ''bzero'' = None" "macros msc_tu ''memset'' = None"
    by (simp_all add: msc_tu_def posix_tu_def)
  have n: "(0::int) \<le> 3" by simp
  obtain m' where
    c: "shim_call ((\<lambda>f vs w. None)(''memset'' := c_memset)) (execs strings_h msc_tu)
          (Call ''bzero'' [Lit (VPtr 4), Lit (VInt 3)]) (\<lambda>a. 255) = Some (VPtr 4, m')"
    and z: "\<forall>i. i < nat 3 \<longrightarrow> m' (4 + i) = 0"
    and o: "\<forall>a. a < 4 \<or> 4 + nat 3 \<le> a \<longrightarrow> m' a = (255 :: 8 word)"
    using bzero_zero_fills [OF m g n, of 4 "\<lambda>f vs w. None" "\<lambda>a. 255", THEN conjunct2] by blast
  have "m' 4 = 0" "m' 5 = 0" "m' 6 = 0"
    using z [rule_format, of 0] z [rule_format, of 1] z [rule_format, of 2] by simp_all
  moreover have "m' 3 = 255" "m' 7 = 255"
    using o [rule_format, of 3] o [rule_format, of 7] by simp_all
  ultimately show ?thesis
    using m g c by simp
qed

text \<open>
  C3, as stated: under the Microsoft runtime \<^verbatim>\<open>ssize_t\<close> is wide enough for a
  pointer-sized difference on every target. The header declares it as \<^verbatim>\<open>long\<close>
  (line 12). On a 64-bit target of that runtime \<^verbatim>\<open>long\<close> has 32 bits and a pointer
  64, so \<^verbatim>\<open>ssize_t\<close> is narrower than a pointer and the difference \<open>2\<^sup>3\<^sup>1\<close> does
  not fit it.
\<close>

theorem ssize_t_narrower_than_pointer:
  "msc msc_tu \<and>
   typedefs (execs unistd_h msc_tu) ''ssize_t'' = Some CLong \<and>
   32 \<le> long_bits llp64 \<and>
   \<not> holds_ptrdiff llp64 CLong \<and>
   \<not> fits llp64 CLong (2 ^ 31) \<and> fits llp64 CLongLong (2 ^ 31)"
  by (simp add: msc_def msc_tu_def posix_tu_def unistd_h_def unistd_msc_def
        define_macro_def typedef_decl_def sys_include_def llp64_def holds_ptrdiff_def fits_def)

text \<open>
  C3, amended. Under the Microsoft runtime, when \<^verbatim>\<open>ssize_t\<close> is neither a macro nor
  a typedef name yet, \<^verbatim>\<open>unistd.h\<close> declares it as \<^verbatim>\<open>long\<close>: a signed integer
  type, at least 32 bits wide on every target (as the C language promises of
  \<^verbatim>\<open>long\<close>), and wide enough for a pointer-sized difference exactly on the targets
  whose pointers are no wider than \<^verbatim>\<open>long\<close>.
\<close>

theorem ssize_t_is_long:
  assumes "msc s" and "macros s ''KREUZBERG_RUBY_UNISTD_H'' = None"
    and "macros s ''ssize_t'' = None" and "typedefs s ''ssize_t'' = None"
    and "32 \<le> long_bits dm"
  shows "typedefs (execs unistd_h s) ''ssize_t'' = Some CLong \<and>
         ctype_signed CLong \<and>
         ctype_bits dm CLong = long_bits dm \<and>
         32 \<le> ctype_bits dm CLong \<and>
         (holds_ptrdiff dm CLong \<longleftrightarrow> ptr_bits dm \<le> long_bits dm)"
  using assms(3,4,5)
  by (simp add: typedefs_unistd_h_msc [OF assms(1,2)] holds_ptrdiff_def)

theorem ssize_t_is_long_witness:
  "msc msc_tu \<and> macros msc_tu ''KREUZBERG_RUBY_UNISTD_H'' = None \<and>
   macros msc_tu ''ssize_t'' = None \<and> typedefs msc_tu ''ssize_t'' = None \<and>
   32 \<le> long_bits ilp32 \<and>
   typedefs (execs unistd_h msc_tu) ''ssize_t'' = Some CLong \<and>
   ctype_bits ilp32 CLong = 32 \<and> holds_ptrdiff ilp32 CLong"
proof -
  have m: "msc msc_tu"
    by (simp add: msc_def msc_tu_def posix_tu_def)
  have g: "macros msc_tu ''KREUZBERG_RUBY_UNISTD_H'' = None"
    "macros msc_tu ''ssize_t'' = None" "typedefs msc_tu ''ssize_t'' = None"
    by (simp_all add: msc_tu_def posix_tu_def)
  have l: "32 \<le> long_bits ilp32"
    by (simp add: ilp32_def)
  show ?thesis
    using ssize_t_is_long [OF m g l] m g l by (simp add: ilp32_def)
qed

text \<open>
  C9, as stated: whenever one of the eight names is already defined before the
  inclusion, the shim leaves it alone, and it introduces its own definition only for a
  name that was undefined. For \<^verbatim>\<open>ssize_t\<close> that fails: what the header introduces is
  a typedef, but the \<^verbatim>\<open>#ifndef ssize_t\<close> around it (line 11) sees macros only. Where
  \<^verbatim>\<open>ssize_t\<close> has been declared by a typedef of another type and is no macro, the
  shim's \<^verbatim>\<open>typedef long ssize_t;\<close> is issued all the same and is reported as a
  conflict.
\<close>

theorem ssize_t_typedef_not_seen_by_ifndef:
  "msc msc_typedef_tu \<and>
   macros msc_typedef_tu ''KREUZBERG_RUBY_UNISTD_H'' = None \<and>
   macros msc_typedef_tu ''ssize_t'' = None \<and>
   typedefs msc_typedef_tu ''ssize_t'' = Some CLongLong \<and>
   diags msc_typedef_tu = [] \<and>
   diags (execs unistd_h msc_typedef_tu) = [Typedef_conflict ''ssize_t'']"
  by (simp add: msc_typedef_tu_def msc_tu_def posix_tu_def msc_def unistd_h_def unistd_msc_def
        define_macro_def typedef_decl_def sys_include_def)

text \<open>
  C9, amended. On the Microsoft runtime, each of \<^verbatim>\<open>strcasecmp\<close>, \<^verbatim>\<open>strncasecmp\<close>,
  \<^verbatim>\<open>bzero\<close>, \<^verbatim>\<open>ssize_t\<close>, \<^verbatim>\<open>F_OK\<close>, \<^verbatim>\<open>X_OK\<close>, \<^verbatim>\<open>W_OK\<close>, \<^verbatim>\<open>R_OK\<close> that
  is a macro before the inclusion is the same macro after it, whichever of the two
  headers is included and whether or not its guard lets the inclusion in. When the
  inclusion gets past the header's guard, the seven macro definitions are introduced
  exactly for the names that were not macros. \<^verbatim>\<open>ssize_t\<close> is guarded against a macro
  of that name only: a macro \<^verbatim>\<open>ssize_t\<close> keeps the typedef from being issued, so
  that the typedef names and the conflicts reported stay as they were; without such a
  macro the typedef is issued, which makes \<^verbatim>\<open>ssize_t\<close> a typedef name for
  \<^verbatim>\<open>long\<close> where it was none or was one for \<^verbatim>\<open>long\<close> already, and is reported as a
  conflict exactly where it was a typedef name for another type.
\<close>

theorem guarded_macros_kept_or_introduced:
  assumes "msc s"
  shows "(macros s ''KREUZBERG_RUBY_STRINGS_H'' = None \<longrightarrow>
            keeps_or_introduces s (execs strings_h s) ''strcasecmp''
              (ObjectLike (Some (Var ''_stricmp''))) \<and>
            keeps_or_introduces s (execs strings_h s) ''strncasecmp''
              (ObjectLike (Some (Var ''_strnicmp''))) \<and>
            keeps_or_introduces s (execs strings_h s) ''bzero''
              (FunctionLike [''ptr'', ''size'']
                 (Call ''memset'' [Paren (Var ''ptr''), Lit (VInt 0), Paren (Var ''size'')]))) \<and>
         (macros s ''KREUZBERG_RUBY_UNISTD_H'' = None \<longrightarrow>
            keeps_or_introduces s (execs unistd_h s) ''F_OK'' (ObjectLike (Some (Lit (VInt 0)))) \<and>
            keeps_or_introduces s (execs unistd_h s) ''X_OK'' (ObjectLike (Some (Lit (VInt 0)))) \<and>
            keeps_or_introduces s (execs unistd_h s) ''W_OK'' (ObjectLike (Some (Lit (VInt 2)))) \<and>
            keeps_or_introduces s (execs unistd_h s) ''R_OK'' (ObjectLike (Some (Lit (VInt 4)))) \<and>
            (case macros s ''ssize_t'' of
               Some d \<Rightarrow>
                 macros (execs unistd_h s) ''ssize_t'' = Some d \<and>
                 typedefs (execs unistd_h s) = typedefs s \<and>
                 (Typedef_conflict ''ssize_t'' \<in> set (diags (execs unistd_h s)) \<longleftrightarrow>
                    Typedef_conflict ''ssize_t'' \<in> set (diags s))
             | None \<Rightarrow>
                 macros (execs unistd_h s) ''ssize_t'' = None \<and>
                 (typedefs s ''ssize_t'' = None \<or> typedefs s ''ssize_t'' = Some CLong \<longrightarrow>
                    typedefs (execs unistd_h s) ''ssize_t'' = Some CLong) \<and>
                 (Typedef_conflict ''ssize_t'' \<in> set (diags (execs unistd_h s)) \<longleftrightarrow>
                    Typedef_conflict ''ssize_t'' \<in> set (diags s) \<or>
                    (typedefs s ''ssize_t'' \<noteq> None \<and>
                     typedefs s ''ssize_t'' \<noteq> Some CLong)))) \<and>
         (\<forall>n \<in> set [''strcasecmp'', ''strncasecmp'', ''bzero'', ''ssize_t'',
                     ''F_OK'', ''X_OK'', ''W_OK'', ''R_OK''].
            \<forall>d. macros s n = Some d \<longrightarrow>
                  macros (execs strings_h s) n = Some d \<and>
                  macros (execs unistd_h s) n = Some d)"
proof (intro conjI impI)
  assume g: "macros s ''KREUZBERG_RUBY_STRINGS_H'' = None"
  note ms = macros_strings_h_msc [OF assms g]
  show "keeps_or_introduces s (execs strings_h s) ''strcasecmp''
          (ObjectLike (Some (Var ''_stricmp'')))"
    by (simp add: keeps_or_introduces_def ms split: option.splits)
  show "keeps_or_introduces s (execs strings_h s) ''strncasecmp''
          (ObjectLike (Some (Var ''_strnicmp'')))"
    by (simp add: keeps_or_introduces_def ms split: option.splits)
  show "keeps_or_introduces s (execs strings_h s) ''bzero''
          (FunctionLike [''ptr'', ''size'']
             (Call ''memset'' [Paren (Var ''ptr''), Lit (VInt 0), Paren (Var ''size'')]))"
    by (simp add: keeps_or_introduces_def ms split: option.splits)
next
  assume g: "macros s ''KREUZBERG_RUBY_UNISTD_H'' = None"
  note mu = macros_unistd_h_msc [OF assms g]
  note tu = typedefs_unistd_h_msc [OF assms g]
  show "keeps_or_introduces s (execs unistd_h s) ''F_OK'' (ObjectLike (Some (Lit (VInt 0))))"
    by (simp add: keeps_or_introduces_def mu split: option.splits)
  show "keeps_or_introduces s (execs unistd_h s) ''X_OK'' (ObjectLike (Some (Lit (VInt 0))))"
    by (simp add: keeps_or_introduces_def mu split: option.splits)
  show "keeps_or_introduces s (execs unistd_h s) ''W_OK'' (ObjectLike (Some (Lit (VInt 2))))"
    by (simp add: keeps_or_introduces_def mu split: option.splits)
  show "keeps_or_introduces s (execs unistd_h s) ''R_OK'' (ObjectLike (Some (Lit (VInt 4))))"
    by (simp add: keeps_or_introduces_def mu split: option.splits)
  note cu = conflict_unistd_h_msc [OF assms g]
  show "case macros s ''ssize_t'' of
          Some d \<Rightarrow>
            macros (execs unistd_h s) ''ssize_t'' = Some d \<and>
            typedefs (execs unistd_h s) = typedefs s \<and>
            (Typedef_conflict ''ssize_t'' \<in> set (diags (execs unistd_h s)) \<longleftrightarrow>
               Typedef_conflict ''ssize_t'' \<in> set (diags s))
        | None \<Rightarrow>
            macros (execs unistd_h s) ''ssize_t'' = None \<and>
            (typedefs s ''ssize_t'' = None \<or> typedefs s ''ssize_t'' = Some CLong \<longrightarrow>
               typedefs (execs unistd_h s) ''ssize_t'' = Some CLong) \<and>
            (Typedef_conflict ''ssize_t'' \<in> set (diags (execs unistd_h s)) \<longleftrightarrow>
               Typedef_conflict ''ssize_t'' \<in> set (diags s) \<or>
               (typedefs s ''ssize_t'' \<noteq> None \<and>
                typedefs s ''ssize_t'' \<noteq> Some CLong))"
  proof (cases "macros s ''ssize_t''")
    case None
    with g show ?thesis
      by (auto simp add: mu tu cu)
  next
    case (Some d)
    with g show ?thesis
      by (simp add: mu tu cu fun_eq_iff)
  qed
next
  have "n \<notin> set (overrides_of unistd_h)"
    if "n \<in> set [''strcasecmp'', ''strncasecmp'', ''bzero'', ''ssize_t'',
                   ''F_OK'', ''X_OK'', ''W_OK'', ''R_OK'']" for n
    using that unfolding overrides_of_unistd_h by auto
  then show "\<forall>n \<in> set [''strcasecmp'', ''strncasecmp'', ''bzero'', ''ssize_t'',
                     ''F_OK'', ''X_OK'', ''W_OK'', ''R_OK''].
            \<forall>d. macros s n = Some d \<longrightarrow>
                  macros (execs strings_h s) n = Some d \<and>
                  macros (execs unistd_h s) n = Some d"
    using strings_h_keeps unistd_h_keeps by blast
qed

theorem guarded_macros_kept_or_introduced_witness:
  "msc msc_host_tu \<and>
   macros msc_host_tu ''KREUZBERG_RUBY_STRINGS_H'' = None \<and>
   macros msc_host_tu ''KREUZBERG_RUBY_UNISTD_H'' = None \<and>
   macros msc_host_tu ''strncasecmp'' = None \<and>
   macros (execs strings_h msc_host_tu) ''strcasecmp'' =
     Some (ObjectLike (Some (Var ''host_stricmp''))) \<and>
   macros (execs strings_h msc_host_tu) ''strncasecmp'' =
     Some (ObjectLike (Some (Var ''_strnicmp''))) \<and>
   macros (execs unistd_h msc_host_tu) ''X_OK'' = Some (ObjectLike (Some (Lit (VInt 1)))) \<and>
   macros (execs unistd_h msc_host_tu) ''F_OK'' = Some (ObjectLike (Some (Lit (VInt 0)))) \<and>
   macros (execs unistd_h msc_host_tu) ''ssize_t'' = Some (ObjectLike (Some (Var ''__int64''))) \<and>
   typedefs (execs unistd_h msc_host_tu) ''ssize_t'' = None \<and>
   Typedef_conflict ''ssize_t'' \<notin> set (diags (execs unistd_h msc_host_tu)) \<and>
   msc msc_typedef_tu \<and> macros msc_typedef_tu ''KREUZBERG_RUBY_UNISTD_H'' = None \<and>
   macros msc_typedef_tu ''ssize_t'' = None \<and>
   Typedef_conflict ''ssize_t'' \<in> set (diags (execs unistd_h msc_typedef_tu))"
proof -
  have m: "msc msc_host_tu"
    by (simp add: msc_def msc_host_tu_def msc_tu_def posix_tu_def)
  have g: "macros msc_host_tu ''KREUZBERG_RUBY_STRINGS_H'' = None"
    "macros msc_host_tu ''KREUZBERG_RUBY_UNISTD_H'' = None"
    "macros msc_host_tu ''strncasecmp'' = None"
    "macros msc_host_tu ''F_OK'' = None"
    "macros msc_host_tu ''strcasecmp'' = Some (ObjectLike (Some (Var ''host_stricmp'')))"
    "macros msc_host_tu ''X_OK'' = Some (ObjectLike (Some (Lit (VInt 1))))"
    "macros msc_host_tu ''ssize_t'' = Some (ObjectLike (Some (Var ''__int64'')))"
    "typedefs msc_host_tu ''ssize_t'' = None"
    by (simp_all add: msc_host_tu_def msc_tu_def posix_tu_def)
  have d: "diags msc_host_tu = []"
    by (simp add: msc_host_tu_def msc_tu_def posix_tu_def)
  have m': "msc msc_typedef_tu"
    by (simp add: msc_def msc_typedef_tu_def msc_tu_def posix_tu_def)
  have g': "macros msc_typedef_tu ''KREUZBERG_RUBY_UNISTD_H'' = None"
    "macros msc_typedef_tu ''ssize_t'' = None"
    "typedefs msc_typedef_tu ''ssize_t'' = Some CLongLong"
    by (simp_all add: msc_typedef_tu_def msc_tu_def posix_tu_def)
  show ?thesis
    using guarded_macros_kept_or_introduced [OF m]
      guarded_macros_kept_or_introduced [OF m'] m g d m' g'
    by (simp add: keeps_or_introduces_def)
qed

text \<open>
  C4. On the Microsoft runtime, once the corresponding header has been included, every
  name of the exported surface is defined, a macro or a typedef name, whatever the
  translation unit held before. In a translation unit that had not met the names, the
  inclusion reports nothing and makes each name usable the POSIX way: a call of each of
  the thirteen functions with the number of arguments POSIX gives it is turned into a
  call of a function the runtime declares, with the number of arguments that function
  takes; the four constants expand to their values; and \<^verbatim>\<open>ssize_t\<close> names the type
  \<^verbatim>\<open>long\<close>.
\<close>

theorem surface_defined_and_usable:
  assumes "msc s"
  shows "(macros s ''KREUZBERG_RUBY_STRINGS_H'' = None \<longrightarrow>
            (\<forall>n \<in> set strings_surface. is_defined (execs strings_h s) n)) \<and>
         (macros s ''KREUZBERG_RUBY_UNISTD_H'' = None \<longrightarrow>
            (\<forall>n \<in> set unistd_surface. is_defined (execs unistd_h s) n)) \<and>
         (macros s ''KREUZBERG_RUBY_STRINGS_H'' = None \<and> pristine s \<longrightarrow>
            (\<forall>(n, k) \<in> set posix_arity. n \<in> set strings_surface \<longrightarrow>
               (\<forall>vs. length vs = k \<longrightarrow> usable_call (execs strings_h s) n vs)) \<and>
            diags (execs strings_h s) = diags s) \<and>
         (macros s ''KREUZBERG_RUBY_UNISTD_H'' = None \<and> pristine s \<and>
          typedefs s ''ssize_t'' = None \<longrightarrow>
            (\<forall>(n, k) \<in> set posix_arity. n \<in> set unistd_surface \<longrightarrow>
               (\<forall>vs. length vs = k \<longrightarrow> usable_call (execs unistd_h s) n vs)) \<and>
            expand (execs unistd_h s) (Var ''F_OK'') = Inr (Lit (VInt 0)) \<and>
            expand (execs unistd_h s) (Var ''X_OK'') = Inr (Lit (VInt 0)) \<and>
            expand (execs unistd_h s) (Var ''W_OK'') = Inr (Lit (VInt 2)) \<and>
            expand (execs unistd_h s) (Var ''R_OK'') = Inr (Lit (VInt 4)) \<and>
            typedefs (execs unistd_h s) ''ssize_t'' = Some CLong \<and>
            diags (execs unistd_h s) = diags s)"
proof (intro conjI impI)
  assume g: "macros s ''KREUZBERG_RUBY_STRINGS_H'' = None"
  show "\<forall>n \<in> set strings_surface. is_defined (execs strings_h s) n"
    by (simp add: strings_surface_def is_defined_def macros_strings_h_msc [OF assms g])
next
  assume g: "macros s ''KREUZBERG_RUBY_UNISTD_H'' = None"
  show "\<forall>n \<in> set unistd_surface. is_defined (execs unistd_h s) n"
    by (simp add: unistd_surface_def is_defined_def macros_unistd_h_msc [OF assms g]
          typedefs_unistd_h_msc [OF assms g])
next
  assume "macros s ''KREUZBERG_RUBY_STRINGS_H'' = None \<and> pristine s"
  then have g: "macros s ''KREUZBERG_RUBY_STRINGS_H'' = None" and p: "pristine s"
    by simp_all
  have u: "macros s ''bzero'' = None"
    using pristine_names(1) [OF p] by (simp add: strings_surface_def)
  have b: "usable_call (execs strings_h s) ''bzero'' vs" if "length vs = 2" for vs
    by (rule bzero_usable)
       (simp_all add: macros_strings_h_msc [OF assms g] u pristine_names(5) [OF p] that)
  show "\<forall>(n, k) \<in> set posix_arity. n \<in> set strings_surface \<longrightarrow>
          (\<forall>vs. length vs = k \<longrightarrow> usable_call (execs strings_h s) n vs)"
  proof (intro ballI, clarify)
    fix n k and vs :: "val list"
    assume nk: "(n, length vs) \<in> set posix_arity" and n: "n \<in> set strings_surface"
    from surface_functions(1) nk n
    have "(n = ''bzero'' \<and> length vs = 2) \<or> (\<exists>t. (n, t) \<in> set (aliases_of strings_h))"
      unfolding list_all_iff by blast
    then show "usable_call (execs strings_h s) n vs"
      using b strings_alias_usable [OF assms g p _ nk] by blast
  qed
next
  show "diags (execs strings_h s) = diags s"
    by (rule strings_h_quiet)
next
  assume "macros s ''KREUZBERG_RUBY_UNISTD_H'' = None \<and> pristine s \<and>
          typedefs s ''ssize_t'' = None"
  then have g: "macros s ''KREUZBERG_RUBY_UNISTD_H'' = None" and p: "pristine s"
    by simp_all
  show "\<forall>(n, k) \<in> set posix_arity. n \<in> set unistd_surface \<longrightarrow>
          (\<forall>vs. length vs = k \<longrightarrow> usable_call (execs unistd_h s) n vs)"
  proof (intro ballI, clarify)
    fix n k and vs :: "val list"
    assume nk: "(n, length vs) \<in> set posix_arity" and n: "n \<in> set unistd_surface"
    from surface_functions(2) nk n
    have "\<exists>t. (n, t) \<in> set (aliases_of unistd_h)"
      unfolding list_all_iff by blast
    then show "usable_call (execs unistd_h s) n vs"
      using unistd_alias_usable [OF assms g p _ nk] by blast
  qed
next
  assume a: "macros s ''KREUZBERG_RUBY_UNISTD_H'' = None \<and> pristine s \<and>
          typedefs s ''ssize_t'' = None"
  then have g: "macros s ''KREUZBERG_RUBY_UNISTD_H'' = None" and p: "pristine s"
    and t: "typedefs s ''ssize_t'' = None"
    by simp_all
  have u: "macros s ''F_OK'' = None" "macros s ''X_OK'' = None"
    "macros s ''W_OK'' = None" "macros s ''R_OK'' = None" "macros s ''ssize_t'' = None"
    using pristine_names(2) [OF p] by (simp_all add: unistd_surface_def)
  have q: "list_all (\<lambda>n. macros s n = None) (overrides_of unistd_h)"
    using pristine_names(2) [OF p]
    by (simp add: unistd_surface_def overrides_of_unistd_h)
  show "expand (execs unistd_h s) (Var ''F_OK'') = Inr (Lit (VInt 0))"
    by (simp add: settled_def macros_unistd_h_msc [OF assms g] u)
  show "expand (execs unistd_h s) (Var ''X_OK'') = Inr (Lit (VInt 0))"
    by (simp add: settled_def macros_unistd_h_msc [OF assms g] u)
  show "expand (execs unistd_h s) (Var ''W_OK'') = Inr (Lit (VInt 2))"
    by (simp add: settled_def macros_unistd_h_msc [OF assms g] u)
  show "expand (execs unistd_h s) (Var ''R_OK'') = Inr (Lit (VInt 4))"
    by (simp add: settled_def macros_unistd_h_msc [OF assms g] u)
  show "typedefs (execs unistd_h s) ''ssize_t'' = Some CLong"
    by (simp add: typedefs_unistd_h_msc [OF assms g] u t)
  show "diags (execs unistd_h s) = diags s"
    using q t by (intro unistd_h_quiet) simp_all
qed

theorem surface_defined_and_usable_witness:
  "msc msc_tu \<and> pristine msc_tu \<and>
   macros msc_tu ''KREUZBERG_RUBY_STRINGS_H'' = None \<and>
   macros msc_tu ''KREUZBERG_RUBY_UNISTD_H'' = None \<and>
   typedefs msc_tu ''ssize_t'' = None \<and>
   is_defined (execs strings_h msc_tu) ''bzero'' \<and>
   is_defined (execs unistd_h msc_tu) ''ssize_t'' \<and>
   usable_call (execs strings_h msc_tu) ''bzero'' [VPtr 8, VInt 4] \<and>
   usable_call (execs unistd_h msc_tu) ''lseek'' [VInt 3, VInt 0, VInt 0] \<and>
   \<not> usable_call msc_tu ''lseek'' [VInt 3, VInt 0, VInt 0] \<and>
   \<not> usable_call (execs unistd_h msc_tu) ''lseek'' [VInt 3] \<and>
   expand (execs unistd_h msc_tu) (Var ''R_OK'') = Inr (Lit (VInt 4)) \<and>
   typedefs (execs unistd_h msc_tu) ''ssize_t'' = Some CLong \<and>
   diags (execs unistd_h msc_tu) = []"
proof -
  have m: "msc msc_tu"
    by (simp add: msc_def msc_tu_def posix_tu_def)
  have p: "pristine msc_tu"
    by (simp add: pristine_def strings_surface_def unistd_surface_def aliases_of_strings_h
          aliases_of_unistd_h msc_tu_def posix_tu_def)
  have gs: "macros msc_tu ''KREUZBERG_RUBY_STRINGS_H'' = None"
    and gu: "macros msc_tu ''KREUZBERG_RUBY_UNISTD_H'' = None"
    and ty: "typedefs msc_tu ''ssize_t'' = None"
    and di: "diags msc_tu = []"
    and ls: "macros msc_tu ''lseek'' = None" "macros msc_tu ''_lseek'' = None"
    by (simp_all add: msc_tu_def posix_tu_def)
  note T = surface_defined_and_usable [OF m]
  note d1 = T [THEN conjunct1, THEN mp, OF gs]
  note d2 = T [THEN conjunct2, THEN conjunct1, THEN mp, OF gu]
  note c1 = T [THEN conjunct2, THEN conjunct2, THEN conjunct1, THEN mp, OF conjI [OF gs p]]
  note c2 = T [THEN conjunct2, THEN conjunct2, THEN conjunct2, THEN mp,
      OF conjI [OF gu conjI [OF p ty]]]
  have a: "is_defined (execs strings_h msc_tu) ''bzero''"
    by (rule d1 [THEN bspec]) (simp add: strings_surface_def)
  have b: "is_defined (execs unistd_h msc_tu) ''ssize_t''"
    by (rule d2 [THEN bspec]) (simp add: unistd_surface_def)
  have "(''bzero'', 2) \<in> set posix_arity"
    by (simp add: posix_arity_def)
  from c1 [THEN conjunct1, THEN bspec, OF this]
  have "\<forall>vs. length vs = 2 \<longrightarrow> usable_call (execs strings_h msc_tu) ''bzero'' vs"
    by (simp add: strings_surface_def)
  from this [rule_format, of "[VPtr 8, VInt 4]"]
  have c: "usable_call (execs strings_h msc_tu) ''bzero'' [VPtr 8, VInt 4]"
    by simp
  have "(''lseek'', 3) \<in> set posix_arity"
    by (simp add: posix_arity_def)
  from c2 [THEN conjunct1, THEN bspec, OF this]
  have "\<forall>vs. length vs = 3 \<longrightarrow> usable_call (execs unistd_h msc_tu) ''lseek'' vs"
    by (simp add: unistd_surface_def)
  from this [rule_format, of "[VInt 3, VInt 0, VInt 0]"]
  have d: "usable_call (execs unistd_h msc_tu) ''lseek'' [VInt 3, VInt 0, VInt 0]"
    by simp
  have e: "\<not> usable_call msc_tu ''lseek'' [VInt 3, VInt 0, VInt 0]"
    by (simp add: usable_call_def ls msvcrt_functions_def)
  have f: "\<not> usable_call (execs unistd_h msc_tu) ''lseek'' [VInt 3]"
    by (simp add: usable_call_def macros_unistd_h_msc [OF m gu] ls msvcrt_functions_def)
  have g: "expand (execs unistd_h msc_tu) (Var ''R_OK'') = Inr (Lit (VInt 4))"
    using c2 by blast
  have h: "typedefs (execs unistd_h msc_tu) ''ssize_t'' = Some CLong"
    using c2 by blast
  have i: "diags (execs unistd_h msc_tu) = []"
    using c2 di by simp
  from m p gs gu ty a b c d e f g h i show ?thesis
    by (intro conjI)
qed




end
